theory Spec2Isabelle
  imports Main "HOL-Library.Word"
begin

section \<open>Errors, results and HTTP status codes\<close>

text \<open>
  The sentinel errors of \<^verbatim>\<open>main.go\<close> are the first six constructors. An error
  value produced by a library (\<^verbatim>\<open>rand.Int\<close>, \<^verbatim>\<open>crypto.SigToPub\<close>,
  the token library) is a value of its own carrying its message: in Go it is never equal
  to one of the sentinels, which are created by \<^verbatim>\<open>errors.New\<close> in this package.
\<close>

datatype error =
    ErrUserNotExists
  | ErrUserExists
  | ErrInvalidAddress
  | ErrInvalidNonce
  | ErrMissingSig
  | ErrAuthError
  | ExternalError string

text \<open>A call either returns or panics (\<^verbatim>\<open>hexutil.MustDecode\<close>, an index out of range).\<close>

datatype 'a go_result = Panics | Returns 'a

type_synonym byte = "8 word"

text \<open>What a handler writes: the status code and the JSON body, if any.\<close>

type_synonym response = "nat \<times> string option"

abbreviation StatusOK :: nat where "StatusOK \<equiv> 200"
abbreviation StatusCreated :: nat where "StatusCreated \<equiv> 201"
abbreviation StatusBadRequest :: nat where "StatusBadRequest \<equiv> 400"
abbreviation StatusUnauthorized :: nat where "StatusUnauthorized \<equiv> 401"
abbreviation StatusNotFound :: nat where "StatusNotFound \<equiv> 404"
abbreviation StatusConflict :: nat where "StatusConflict \<equiv> 409"
abbreviation StatusInternalServerError :: nat where "StatusInternalServerError \<equiv> 500"

section \<open>The user registry\<close>

record User =
  Address :: string
  Nonce :: string

text \<open>
  \<^verbatim>\<open>MemStorage\<close> is a Go map guarded by a readers-writer lock. Each of its three
  methods holds the lock for its whole body, so each is one atomic step on the map.
\<close>

type_synonym MemStorage = "string \<rightharpoonup> User"

definition NewMemStorage :: MemStorage where
  "NewMemStorage = Map.empty"

definition CreateIfNotExists :: "MemStorage \<Rightarrow> User \<Rightarrow> error option \<times> MemStorage" where
  "CreateIfNotExists m u =
     (case m (Address u) of
        Some _ \<Rightarrow> (Some ErrUserExists, m)
      | None \<Rightarrow> (None, m(Address u \<mapsto> u)))"

text \<open>On a missing key the Go map read yields the zero \<^verbatim>\<open>User\<close>.\<close>

definition zero_User :: User where
  "zero_User = \<lparr>Address = [], Nonce = []\<rparr>"

definition Get :: "MemStorage \<Rightarrow> string \<Rightarrow> User \<times> error option" where
  "Get m address =
     (case m address of
        None \<Rightarrow> (zero_User, Some ErrUserNotExists)
      | Some u \<Rightarrow> (u, None))"

definition Update :: "MemStorage \<Rightarrow> User \<Rightarrow> error option \<times> MemStorage" where
  "Update m user = (None, m(Address user \<mapsto> user))"

section \<open>Input validation\<close>

text \<open>
  \<^verbatim>\<open>hexRegex = ^0x[a-fA-F0-9]{40}$\<close> and \<^verbatim>\<open>nonceRegex = ^[0-9]+$\<close>. Without the
  multi-line flag, \<^verbatim>\<open>$\<close> matches only at the end of the text.
\<close>

definition is_hex_char :: "char \<Rightarrow> bool" where
  "is_hex_char c = (c \<in> set ''abcdefABCDEF0123456789'')"

definition is_digit_char :: "char \<Rightarrow> bool" where
  "is_digit_char c = (c \<in> set ''0123456789'')"

definition hexRegex_MatchString :: "string \<Rightarrow> bool" where
  "hexRegex_MatchString s =
     (length s = 42 \<and> take 2 s = ''0x'' \<and> list_all is_hex_char (drop 2 s))"

definition nonceRegex_MatchString :: "string \<Rightarrow> bool" where
  "nonceRegex_MatchString s = (s \<noteq> [] \<and> list_all is_digit_char s)"

text \<open>
  \<^verbatim>\<open>strings.ToLower\<close> on the bytes of the ASCII range: \<^verbatim>\<open>'A'..'Z'\<close> move up by
  \<^verbatim>\<open>'a' - 'A'\<close>. Every string the handlers pass to it has matched \<^verbatim>\<open>hexRegex\<close>,
  and the hex form of a recovered address is ASCII as well; bytes from 0x80 on are left
  as they are here.
\<close>

definition lower_char :: "char \<Rightarrow> char" where
  "lower_char c =
     (if 65 \<le> (of_char c :: nat) \<and> (of_char c :: nat) \<le> 90
      then char_of ((of_char c :: nat) + 32) else c)"

definition ToLower :: "string \<Rightarrow> string" where
  "ToLower s = map lower_char s"

record RegisterPayload =
  reg_Address :: string

definition Validate_Register :: "RegisterPayload \<Rightarrow> error option" where
  "Validate_Register p =
     (if \<not> hexRegex_MatchString (reg_Address p) then Some ErrInvalidAddress else None)"

record SigninPayload =
  sig_Address :: string
  sig_Nonce :: string
  sig_Sig :: string

definition Validate_Signin :: "SigninPayload \<Rightarrow> error option" where
  "Validate_Signin s =
     (if \<not> hexRegex_MatchString (sig_Address s) then Some ErrInvalidAddress
      else if \<not> nonceRegex_MatchString (sig_Nonce s) then Some ErrInvalidNonce
      else if length (sig_Sig s) = 0 then Some ErrMissingSig
      else None)"

section \<open>Nonce generation\<close>

text \<open>
  \<^verbatim>\<open>GetNonce\<close> draws from \<^verbatim>\<open>rand.Int(rand.Reader, max)\<close> with
  \<^verbatim>\<open>max = 2^130 - 1\<close> and prints the number in base 10. The entropy source is the
  parameter \<open>rand_Int\<close>: what \<^verbatim>\<open>rand.Int(rand.Reader, _)\<close> answers at this call,
  an error message or a number.
\<close>

type_synonym rand_source = "nat \<Rightarrow> string + nat"

definition max_nonce :: nat where
  "max_nonce = 2 ^ 130 - 1"

definition digit_char :: "nat \<Rightarrow> char" where
  "digit_char d = char_of (48 + d)"

fun Text10 :: "nat \<Rightarrow> string" where
  "Text10 n = (if n < 10 then [digit_char n] else Text10 (n div 10) @ [digit_char (n mod 10)])"

declare Text10.simps [simp del]

definition GetNonce :: "rand_source \<Rightarrow> string \<times> error option" where
  "GetNonce rand_Int =
     (case rand_Int max_nonce of
        Inl msg \<Rightarrow> ([], Some (ExternalError msg))
      | Inr n \<Rightarrow> (Text10 n, None))"

section \<open>Registration and nonce lookup\<close>

text \<open>
  The request of a handler is the decoded payload, or \<open>None\<close> when \<^verbatim>\<open>bindReqBody\<close>
  returned an error.
\<close>

definition RegisterHandler ::
  "rand_source \<Rightarrow> MemStorage \<Rightarrow> RegisterPayload option \<Rightarrow> response \<times> MemStorage" where
  "RegisterHandler rand_Int storage req =
     (case req of
        None \<Rightarrow> ((StatusBadRequest, None), storage)
      | Some p \<Rightarrow>
          if Validate_Register p \<noteq> None then ((StatusBadRequest, None), storage)
          else
            (case GetNonce rand_Int of
               (_, Some _) \<Rightarrow> ((StatusInternalServerError, None), storage)
             | (nonce, None) \<Rightarrow>
                 let u = \<lparr>Address = ToLower (reg_Address p), Nonce = nonce\<rparr> in
                 (case CreateIfNotExists storage u of
                    (Some err, st) \<Rightarrow>
                      if err = ErrUserExists then ((StatusConflict, None), st)
                      else ((StatusInternalServerError, None), st)
                  | (None, st) \<Rightarrow> ((StatusCreated, None), st))))"

text \<open>The router hands \<^verbatim>\<open>UserNonceHandler\<close> the \<^verbatim>\<open>address\<close> path parameter.\<close>

definition UserNonceHandler :: "MemStorage \<Rightarrow> string \<Rightarrow> response \<times> MemStorage" where
  "UserNonceHandler storage address =
     (if \<not> hexRegex_MatchString address then ((StatusBadRequest, None), storage)
      else
        (case Get storage (ToLower address) of
           (_, Some err) \<Rightarrow>
             if err = ErrUserNotExists then ((StatusNotFound, None), storage)
             else ((StatusInternalServerError, None), storage)
         | (user, None) \<Rightarrow> ((StatusOK, Some (Nonce user)), storage)))"

section \<open>The libraries the sign-in calls\<close>

text \<open>
  \<^verbatim>\<open>hexutil\<close>, \<^verbatim>\<open>accounts\<close> and \<^verbatim>\<open>crypto\<close> belong to go-ethereum, not to this
  repository. Their functions are parameters of the model; an error they return is its
  message.
  \<^item> \<open>Decode\<close> is \<^verbatim>\<open>hexutil.Decode\<close>, on whose error \<^verbatim>\<open>hexutil.MustDecode\<close> panics;
  \<^item> \<open>TextHash\<close> is \<^verbatim>\<open>accounts.TextHash\<close>;
  \<^item> \<open>SigToPub\<close> is \<^verbatim>\<open>crypto.SigToPub\<close>;
  \<^item> \<open>PubkeyToAddressHex\<close> is \<^verbatim>\<open>crypto.PubkeyToAddress(_).Hex()\<close>.
\<close>

type_synonym pubkey = "byte list"

record crypto =
  Decode :: "string \<Rightarrow> string + byte list"
  TextHash :: "byte list \<Rightarrow> byte list"
  SigToPub :: "byte list \<Rightarrow> byte list \<Rightarrow> string + pubkey"
  PubkeyToAddressHex :: "pubkey \<Rightarrow> string"

definition RecoveryIDOffset :: nat where
  "RecoveryIDOffset = 64"

text \<open>\<^verbatim>\<open>[]byte(nonce)\<close>\<close>

definition bytes_of :: "string \<Rightarrow> byte list" where
  "bytes_of s = map (\<lambda>c. of_char c) s"

section \<open>Authentication\<close>

text \<open>
  \<^verbatim>\<open>Authenticate\<close> reads the registry once (\<^verbatim>\<open>storage.Get\<close>) and writes it at
  most once (\<^verbatim>\<open>storage.Update\<close>); everything in between works on local values.
  \<open>Authenticate_after_Get\<close> is the body from line 313 on, given what \<^verbatim>\<open>Get\<close>
  returned and the registry as it is when \<^verbatim>\<open>Update\<close> runs. A byte subtraction wraps
  around; an index past the end of the slice panics.
\<close>

definition Authenticate_after_Get ::
  "crypto \<Rightarrow> rand_source \<Rightarrow> MemStorage \<Rightarrow> User \<times> error option \<Rightarrow> string \<Rightarrow> string
     \<Rightarrow> (User \<times> error option) go_result \<times> MemStorage" where
  "Authenticate_after_Get lib rand_Int storage got nonce sigHex =
     (case got of (user, err) \<Rightarrow>
        if err \<noteq> None then (Returns (user, err), storage)
        else if Nonce user \<noteq> nonce then (Returns (user, Some ErrAuthError), storage)
        else
          (case Decode lib sigHex of
             Inl _ \<Rightarrow> (Panics, storage)
           | Inr sig \<Rightarrow>
               if length sig \<le> RecoveryIDOffset then (Panics, storage)
               else
                 let sig' = sig[RecoveryIDOffset := sig ! RecoveryIDOffset - 27];
                     msg = TextHash lib (bytes_of nonce)
                 in
                 (case SigToPub lib msg sig' of
                    Inl e \<Rightarrow> (Returns (user, Some (ExternalError e)), storage)
                  | Inr recovered \<Rightarrow>
                      let recoveredAddr = PubkeyToAddressHex lib recovered in
                      if Address user \<noteq> ToLower recoveredAddr
                      then (Returns (user, Some ErrAuthError), storage)
                      else
                        (case GetNonce rand_Int of
                           (_, Some e) \<Rightarrow> (Returns (user, Some e), storage)
                         | (nonce', None) \<Rightarrow>
                             let user' = user\<lparr>Nonce := nonce'\<rparr> in
                             (Returns (user', None), snd (Update storage user'))))))"

definition Authenticate ::
  "crypto \<Rightarrow> rand_source \<Rightarrow> MemStorage \<Rightarrow> string \<Rightarrow> string \<Rightarrow> string
     \<Rightarrow> (User \<times> error option) go_result \<times> MemStorage" where
  "Authenticate lib rand_Int storage address nonce sigHex =
     Authenticate_after_Get lib rand_Int storage (Get storage address) nonce sigHex"

text \<open>
  What the signature stage of \<^verbatim>\<open>Authenticate\<close> (lines 320 to 329) does with a nonce
  and a signature string: \<^verbatim>\<open>MustDecode\<close> panics, the write to
  \<^verbatim>\<open>sig[RecoveryIDOffset]\<close> panics, \<^verbatim>\<open>SigToPub\<close> returns an error, or an
  address is recovered (given here in lower case). The theorems use it to say which
  signatures they are about.
\<close>

datatype sig_outcome = BadHex | TooShort | NoRecovery string | Recovered string

definition signature_outcome :: "crypto \<Rightarrow> string \<Rightarrow> string \<Rightarrow> sig_outcome" where
  "signature_outcome lib nonce sigHex =
     (case Decode lib sigHex of
        Inl _ \<Rightarrow> BadHex
      | Inr sig \<Rightarrow>
          if length sig \<le> RecoveryIDOffset then TooShort
          else
            (case SigToPub lib (TextHash lib (bytes_of nonce))
                    (sig[RecoveryIDOffset := sig ! RecoveryIDOffset - 27]) of
               Inl e \<Rightarrow> NoRecovery e
             | Inr pk \<Rightarrow> Recovered (ToLower (PubkeyToAddressHex lib pk))))"

section \<open>Bearer tokens\<close>

text \<open>
  The token library (golang-jwt v4) is not part of the repository either. A decoded token
  has a signing method, registered claims, the signing input (the first two segments) and
  the signature segment. Times are numbers on one clock.
\<close>

datatype SigningMethod =
    SigningMethodHMAC string
  | SigningMethodNone
  | SigningMethodOther string

record RegisteredClaims =
  Issuer :: string
  Subject :: string
  ExpiresAt :: "int option"
  NotBefore :: "int option"
  IssuedAt :: "int option"

record Token =
  Method :: SigningMethod
  Claims :: RegisteredClaims
  SigningInput :: string
  Signature :: string
  Valid :: bool

text \<open>
  The primitives of the library are parameters:
  \<^item> \<open>ParseUnverified\<close> splits and decodes a token string, or fails on a malformed one
    or on an \<^verbatim>\<open>alg\<close> that names no registered signing method;
  \<^item> \<open>MethodVerify\<close> is \<^verbatim>\<open>token.Method.Verify(signingInput, signature, key)\<close>, true
    when it returns no error;
  \<^item> \<open>SignedString\<close> is \<^verbatim>\<open>jwt.NewWithClaims(method, claims).SignedString(key)\<close>.
\<close>

record jwt_lib =
  ParseUnverified :: "string \<Rightarrow> string + Token"
  MethodVerify :: "SigningMethod \<Rightarrow> string \<Rightarrow> string \<Rightarrow> byte list \<Rightarrow> bool"
  SignedString :: "SigningMethod \<Rightarrow> RegisteredClaims \<Rightarrow> byte list \<Rightarrow> string + string"

text \<open>
  \<^verbatim>\<open>RegisteredClaims.Valid\<close> of the library: each of the three time claims is
  checked only when present; a token is expired from \<^verbatim>\<open>exp\<close> on.
\<close>

definition claims_Valid :: "int \<Rightarrow> RegisteredClaims \<Rightarrow> bool" where
  "claims_Valid now c =
     ((case ExpiresAt c of None \<Rightarrow> True | Some e \<Rightarrow> now < e) \<and>
      (case IssuedAt c of None \<Rightarrow> True | Some i \<Rightarrow> i \<le> now) \<and>
      (case NotBefore c of None \<Rightarrow> True | Some n \<Rightarrow> n \<le> now))"

text \<open>
  \<^verbatim>\<open>Parser.ParseWithClaims\<close> of the library, with no \<^verbatim>\<open>ValidMethods\<close> set: decode,
  ask the key function for the key, validate the claims, verify the signature; the token
  is returned with \<^verbatim>\<open>Valid = true\<close> and no error only when nothing failed.
\<close>

definition ParseWithClaims ::
  "jwt_lib \<Rightarrow> int \<Rightarrow> string \<Rightarrow> (Token \<Rightarrow> string + byte list) \<Rightarrow> string + Token" where
  "ParseWithClaims jl now tokenString keyFunc =
     (case ParseUnverified jl tokenString of
        Inl e \<Rightarrow> Inl e
      | Inr token \<Rightarrow>
          (case keyFunc token of
             Inl e \<Rightarrow> Inl e
           | Inr key \<Rightarrow>
               if claims_Valid now (Claims token) \<and>
                  MethodVerify jl (Method token) (SigningInput token) (Signature token) key
               then Inr (token\<lparr>Valid := True\<rparr>)
               else Inl ''token is invalid''))"

record JwtHmacProvider =
  hmacSecret :: "byte list"
  issuer :: string
  duration :: int

definition NewJwtHmacProvider :: "string \<Rightarrow> string \<Rightarrow> int \<Rightarrow> JwtHmacProvider" where
  "NewJwtHmacProvider secret iss d =
     \<lparr>hmacSecret = bytes_of secret, issuer = iss, duration = d\<rparr>"

definition CreateStandard ::
  "jwt_lib \<Rightarrow> int \<Rightarrow> JwtHmacProvider \<Rightarrow> string \<Rightarrow> string + string" where
  "CreateStandard jl now j subject =
     (let claims = \<lparr>Issuer = issuer j, Subject = subject,
                    ExpiresAt = Some (now + duration j), NotBefore = None,
                    IssuedAt = Some now\<rparr>
      in SignedString jl (SigningMethodHMAC ''HS256'') claims (hmacSecret j))"

text \<open>The key function that \<^verbatim>\<open>Verify\<close> passes to the parser.\<close>

definition Verify_keyFunc :: "JwtHmacProvider \<Rightarrow> Token \<Rightarrow> string + byte list" where
  "Verify_keyFunc j token =
     (case Method token of
        SigningMethodHMAC _ \<Rightarrow> Inr (hmacSecret j)
      | _ \<Rightarrow> Inl ''Unexpected signing method'')"

definition Verify ::
  "jwt_lib \<Rightarrow> int \<Rightarrow> JwtHmacProvider \<Rightarrow> string \<Rightarrow> error + RegisteredClaims" where
  "Verify jl now j tokenString =
     (case ParseWithClaims jl now tokenString (Verify_keyFunc j) of
        Inl _ \<Rightarrow> Inl ErrAuthError
      | Inr token \<Rightarrow> if Valid token then Inr (Claims token) else Inl ErrAuthError)"

section \<open>Sign-in\<close>

definition SigninHandler ::
  "crypto \<Rightarrow> jwt_lib \<Rightarrow> int \<Rightarrow> rand_source \<Rightarrow> JwtHmacProvider \<Rightarrow> MemStorage
     \<Rightarrow> SigninPayload option \<Rightarrow> response go_result \<times> MemStorage" where
  "SigninHandler lib jl now rand_Int jwtProvider storage req =
     (case req of
        None \<Rightarrow> (Returns (StatusBadRequest, None), storage)
      | Some p \<Rightarrow>
          if Validate_Signin p \<noteq> None then (Returns (StatusBadRequest, None), storage)
          else
            let address = ToLower (sig_Address p) in
            (case Authenticate lib rand_Int storage address (sig_Nonce p) (sig_Sig p) of
               (Panics, st) \<Rightarrow> (Panics, st)
             | (Returns (user, err), st) \<Rightarrow>
                 (case err of
                    None \<Rightarrow>
                      (case CreateStandard jl now jwtProvider (Address user) of
                         Inl _ \<Rightarrow> (Returns (StatusInternalServerError, None), st)
                       | Inr signedToken \<Rightarrow> (Returns (StatusOK, Some signedToken), st))
                  | Some e \<Rightarrow>
                      if e = ErrAuthError then (Returns (StatusUnauthorized, None), st)
                      else (Returns (StatusInternalServerError, None), st))))"

section \<open>Two sign-ins at once\<close>

text \<open>
  Requests run on goroutines of their own. The registry is the only shared state, and
  the lock makes \<^verbatim>\<open>Get\<close> and \<^verbatim>\<open>Update\<close> atomic, so a run of
  \<^verbatim>\<open>Authenticate\<close> is two steps on the registry: the read, and, after the local
  checks, the write. Between the two the lock is free. The local checks touch no shared
  state, so they are taken together with the write that follows them.
\<close>

datatype auth_thread =
    Called string string string
  | Fetched "User \<times> error option" string string
  | Finished "(User \<times> error option) go_result"

fun thread_step ::
  "crypto \<Rightarrow> rand_source \<Rightarrow> auth_thread \<Rightarrow> MemStorage \<Rightarrow> auth_thread \<times> MemStorage" where
  "thread_step lib rand_Int (Called address nonce sigHex) st =
     (Fetched (Get st address) nonce sigHex, st)"
| "thread_step lib rand_Int (Fetched got nonce sigHex) st =
     (case Authenticate_after_Get lib rand_Int st got nonce sigHex of
        (r, st') \<Rightarrow> (Finished r, st'))"
| "thread_step lib rand_Int (Finished r) st = (Finished r, st)"

datatype turn = First | Second

text \<open>A schedule says which of the two goroutines takes the next step.\<close>

fun run_two ::
  "crypto \<Rightarrow> rand_source \<Rightarrow> rand_source \<Rightarrow> turn list
     \<Rightarrow> auth_thread \<times> auth_thread \<times> MemStorage \<Rightarrow> auth_thread \<times> auth_thread \<times> MemStorage" where
  "run_two lib r1 r2 [] cfg = cfg"
| "run_two lib r1 r2 (First # sched) (t1, t2, st) =
     (case thread_step lib r1 t1 st of (t1', st') \<Rightarrow> run_two lib r1 r2 sched (t1', t2, st'))"
| "run_two lib r1 r2 (Second # sched) (t1, t2, st) =
     (case thread_step lib r2 t2 st of (t2', st') \<Rightarrow> run_two lib r1 r2 sched (t1, t2', st'))"

section \<open>Two registrations at once\<close>

text \<open>
  For concurrent callers the lock of \<^verbatim>\<open>MemStorage\<close> is part of the state, and
  \<^verbatim>\<open>CreateIfNotExists\<close> is the sequence of its statements: \<^verbatim>\<open>m.lock.Lock()\<close>, which
  waits while the lock is held; the lookup \<^verbatim>\<open>m.users[u.Address]\<close>; the store
  \<^verbatim>\<open>m.users[u.Address] = u\<close> when the key was absent; and the deferred
  \<^verbatim>\<open>m.lock.Unlock()\<close> on the way out. A goroutine is at one of these points.
\<close>

record LockedStorage =
  lock_held :: bool
  users :: MemStorage

datatype create_thread =
    C_Call User
  | C_Locked User
  | C_Insert User
  | C_Unlock "error option"
  | C_Return "error option"

text \<open>One statement of one goroutine; \<open>None\<close> when it cannot move (it waits for the lock, or has returned).\<close>

fun create_step :: "create_thread \<Rightarrow> LockedStorage \<Rightarrow> (create_thread \<times> LockedStorage) option" where
  "create_step (C_Call u) m =
     (if lock_held m then None else Some (C_Locked u, m\<lparr>lock_held := True\<rparr>))"
| "create_step (C_Locked u) m =
     (case users m (Address u) of
        Some _ \<Rightarrow> Some (C_Unlock (Some ErrUserExists), m)
      | None \<Rightarrow> Some (C_Insert u, m))"
| "create_step (C_Insert u) m =
     Some (C_Unlock None, m\<lparr>users := (users m)(Address u \<mapsto> u)\<rparr>)"
| "create_step (C_Unlock e) m = Some (C_Return e, m\<lparr>lock_held := False\<rparr>)"
| "create_step (C_Return e) m = None"

text \<open>A schedule picks the goroutine to move next; a goroutine that cannot move stays where it is.\<close>

fun run_creates ::
  "turn list \<Rightarrow> create_thread \<times> create_thread \<times> LockedStorage
     \<Rightarrow> create_thread \<times> create_thread \<times> LockedStorage" where
  "run_creates [] cfg = cfg"
| "run_creates (First # sched) (t1, t2, m) =
     (case create_step t1 m of
        None \<Rightarrow> run_creates sched (t1, t2, m)
      | Some (t1', m') \<Rightarrow> run_creates sched (t1', t2, m'))"
| "run_creates (Second # sched) (t1, t2, m) =
     (case create_step t2 m of
        None \<Rightarrow> run_creates sched (t1, t2, m)
      | Some (t2', m') \<Rightarrow> run_creates sched (t1, t2', m'))"

text \<open>
  The invariant of such a run, for the goroutine that takes the lock first. Inside the
  locked part a goroutine has seen the map \<open>m\<close> it found when it took the lock;
  \<open>serial m ua ub ta tb sh\<close> places the call for \<open>ua\<close> wholly before the one for
  \<open>ub\<close>.
\<close>

definition in_section :: "MemStorage \<Rightarrow> User \<Rightarrow> create_thread \<Rightarrow> MemStorage \<Rightarrow> bool" where
  "in_section m u t cur =
     (case t of
        C_Locked v \<Rightarrow> v = u \<and> cur = m
      | C_Insert v \<Rightarrow> v = u \<and> cur = m \<and> m (Address u) = None
      | C_Unlock e \<Rightarrow> (e, cur) = CreateIfNotExists m u
      | _ \<Rightarrow> False)"

definition serial ::
  "MemStorage \<Rightarrow> User \<Rightarrow> User \<Rightarrow> create_thread \<Rightarrow> create_thread \<Rightarrow> LockedStorage \<Rightarrow> bool" where
  "serial m ua ub ta tb sh =
     ((ta = C_Call ua \<and> tb = C_Call ub \<and> \<not> lock_held sh \<and> users sh = m) \<or>
      (in_section m ua ta (users sh) \<and> tb = C_Call ub \<and> lock_held sh) \<or>
      (ta = C_Return (fst (CreateIfNotExists m ua)) \<and>
       ((tb = C_Call ub \<and> \<not> lock_held sh \<and> users sh = snd (CreateIfNotExists m ua)) \<or>
        (in_section (snd (CreateIfNotExists m ua)) ub tb (users sh) \<and> lock_held sh) \<or>
        (\<exists>eb. tb = C_Return eb \<and> \<not> lock_held sh \<and>
           (eb, users sh) = CreateIfNotExists (snd (CreateIfNotExists m ua)) ub))))"

text \<open>Either call may be the first.\<close>

definition serialised ::
  "MemStorage \<Rightarrow> User \<Rightarrow> User \<Rightarrow> create_thread \<times> create_thread \<times> LockedStorage \<Rightarrow> bool" where
  "serialised m u1 u2 cfg =
     (case cfg of (t1, t2, sh) \<Rightarrow> serial m u1 u2 t1 t2 sh \<or> serial m u2 u1 t2 t1 sh)"

section \<open>Registries the handlers can produce\<close>

text \<open>
  The registry starts empty and changes only through the handlers. In every registry
  so reached, a record sits under its own address, and that address is lower case.
\<close>

inductive reachable :: "MemStorage \<Rightarrow> bool" where
  init: "reachable NewMemStorage"
| register: "reachable s \<Longrightarrow> RegisterHandler rand_Int s req = (resp, s') \<Longrightarrow> reachable s'"
| lookup: "reachable s \<Longrightarrow> UserNonceHandler s address = (resp, s') \<Longrightarrow> reachable s'"
| signin: "reachable s \<Longrightarrow> SigninHandler lib jl now rand_Int j s sreq = (sresp, s')
     \<Longrightarrow> reachable s'"

definition registry_inv :: "MemStorage \<Rightarrow> bool" where
  "registry_inv m = (\<forall>k u. m k = Some u \<longrightarrow> Address u = k \<and> ToLower k = k)"

section \<open>A small instance of the libraries\<close>

text \<open>
  To run the model on concrete requests the library parameters need values.
  \<open>hexutil_Decode\<close> follows the documentation of \<^verbatim>\<open>hexutil.Decode\<close>: the input
  is \<^verbatim>\<open>0x\<close> or \<^verbatim>\<open>0X\<close> and then an even number of hex digits. The signature scheme is
  a stand-in with the interface of the real one: a signature has 65 bytes, the last is the
  recovery id, which must be below 4; the key it recovers is its first byte, and the
  address of a key is its low hex digit, in upper case, forty times.
\<close>

definition hex_digit_val :: "char \<Rightarrow> nat option" where
  "hex_digit_val c =
     (let n = (of_char c :: nat) in
      if 48 \<le> n \<and> n \<le> 57 then Some (n - 48)
      else if 97 \<le> n \<and> n \<le> 102 then Some (n - 87)
      else if 65 \<le> n \<and> n \<le> 70 then Some (n - 55)
      else None)"

fun hex_DecodeString :: "string \<Rightarrow> byte list option" where
  "hex_DecodeString [] = Some []"
| "hex_DecodeString [c] = None"
| "hex_DecodeString (c # d # cs) =
     (case (hex_digit_val c, hex_digit_val d, hex_DecodeString cs) of
        (Some h, Some l, Some bs) \<Rightarrow> Some (of_nat (16 * h + l) # bs)
      | _ \<Rightarrow> None)"

definition has0xPrefix :: "string \<Rightarrow> bool" where
  "has0xPrefix input = (take 2 input = ''0x'' \<or> take 2 input = ''0X'')"

definition hexutil_Decode :: "string \<Rightarrow> string + byte list" where
  "hexutil_Decode input =
     (if input = [] then Inl ''empty hex string''
      else if \<not> has0xPrefix input then Inl ''hex string without 0x prefix''
      else (case hex_DecodeString (drop 2 input) of
              None \<Rightarrow> Inl ''invalid hex string''
            | Some b \<Rightarrow> Inr b))"

definition sample_SigToPub :: "byte list \<Rightarrow> byte list \<Rightarrow> string + pubkey" where
  "sample_SigToPub hash sig =
     (if length sig \<noteq> 65 then Inl ''invalid signature length''
      else if 4 \<le> unat (sig ! 64) then Inl ''invalid signature recovery id''
      else Inr [sig ! 0])"

definition sample_AddressHex :: "pubkey \<Rightarrow> string" where
  "sample_AddressHex pk =
     ''0x'' @ replicate 40 (''0123456789ABCDEF'' ! (unat (hd pk) mod 16))"

definition sample_crypto :: crypto where
  "sample_crypto =
     \<lparr>Decode = hexutil_Decode, TextHash = (\<lambda>m. m),
      SigToPub = sample_SigToPub, PubkeyToAddressHex = sample_AddressHex\<rparr>"

text \<open>
  The address of key \<^verbatim>\<open>0x0a\<close>, the same in upper case, the address of key
  \<^verbatim>\<open>0x0b\<close>, and a signature by each key.
\<close>

definition addr_a :: string where
  "addr_a = ''0x'' @ replicate 40 CHR ''a''"

definition addr_A :: string where
  "addr_A = ''0x'' @ replicate 40 CHR ''A''"

definition addr_b :: string where
  "addr_b = ''0x'' @ replicate 40 CHR ''b''"

definition sig_by_a :: string where
  "sig_by_a = ''0x0a'' @ concat (replicate 63 ''00'') @ ''1b''"

definition sig_by_b :: string where
  "sig_by_b = ''0x0b'' @ concat (replicate 63 ''00'') @ ''1b''"

text \<open>A signature by key \<^verbatim>\<open>0x0a\<close> whose recovery id byte is \<^verbatim>\<open>0xff\<close>.\<close>

definition sig_bad_v :: string where
  "sig_bad_v = ''0x0a'' @ concat (replicate 63 ''00'') @ ''ff''"


text \<open>A registry holding one user, with nonce 7, and entropy sources.\<close>

definition user_a :: "string \<Rightarrow> User" where
  "user_a n = \<lparr>Address = addr_a, Nonce = n\<rparr>"

definition one_user :: MemStorage where
  "one_user = NewMemStorage(addr_a \<mapsto> user_a ''7'')"

definition rand_gives :: "nat \<Rightarrow> rand_source" where
  "rand_gives n = (\<lambda>m. Inr n)"

definition rand_fails :: rand_source where
  "rand_fails = (\<lambda>m. Inl ''entropy source unavailable'')"

text \<open>
  A token library of four token strings: \<^verbatim>\<open>good\<close> is signed with HS256 under the
  secret and expires at 100, \<^verbatim>\<open>forged\<close> is the same with another signature,
  \<^verbatim>\<open>none\<close> claims the method \<^verbatim>\<open>none\<close>, and anything else is malformed.
\<close>

definition sample_claims :: RegisteredClaims where
  "sample_claims =
     \<lparr>Issuer = ''awesome-metamask-login'', Subject = addr_a,
      ExpiresAt = Some 100, NotBefore = None, IssuedAt = Some 10\<rparr>"

definition sample_token :: "SigningMethod \<Rightarrow> string \<Rightarrow> Token" where
  "sample_token m s =
     \<lparr>Method = m, Claims = sample_claims, SigningInput = ''header.claims'',
      Signature = s, Valid = False\<rparr>"

definition sample_jwt :: jwt_lib where
  "sample_jwt =
     \<lparr>ParseUnverified = (\<lambda>s.
        if s = ''good'' then Inr (sample_token (SigningMethodHMAC ''HS256'') ''mac'')
        else if s = ''forged'' then Inr (sample_token (SigningMethodHMAC ''HS256'') ''xxx'')
        else if s = ''none'' then Inr (sample_token SigningMethodNone [])
        else Inl ''token contains an invalid number of segments''),
      MethodVerify = (\<lambda>m input s key.
        (case m of SigningMethodHMAC _ \<Rightarrow> s = ''mac'' \<and> key = bytes_of ''secret''
         | _ \<Rightarrow> False)),
      SignedString = (\<lambda>m c key. Inr ''good'')\<rparr>"

definition sample_provider :: JwtHmacProvider where
  "sample_provider = NewJwtHmacProvider ''secret'' ''awesome-metamask-login'' 900"

text \<open>Requests for the user above, with the address written in upper case.\<close>

definition signin_a :: "string \<Rightarrow> string \<Rightarrow> SigninPayload" where
  "signin_a n sg =
     \<lparr>sig_Address = addr_A, sig_Nonce = n, sig_Sig = sg\<rparr>"

definition register_A :: RegisterPayload where
  "register_A = \<lparr>reg_Address = addr_A\<rparr>"

section \<open>Facts about the model\<close>

lemma lower_char_idem: "lower_char (lower_char c) = lower_char c"
  by (simp add: lower_char_def)

lemma ToLower_idem: "ToLower (ToLower s) = ToLower s"
  by (simp add: ToLower_def lower_char_idem)

text \<open>\<^verbatim>\<open>Authenticate\<close>, path by path.\<close>

lemma Authenticate_cases:
  "Authenticate lib r s a n sg =
     (case s a of
        None \<Rightarrow> (Returns (zero_User, Some ErrUserNotExists), s)
      | Some u \<Rightarrow>
          if Nonce u \<noteq> n then (Returns (u, Some ErrAuthError), s)
          else
            (case signature_outcome lib n sg of
               BadHex \<Rightarrow> (Panics, s)
             | TooShort \<Rightarrow> (Panics, s)
             | NoRecovery e \<Rightarrow> (Returns (u, Some (ExternalError e)), s)
             | Recovered addr \<Rightarrow>
                 if Address u \<noteq> addr then (Returns (u, Some ErrAuthError), s)
                 else
                   (case r max_nonce of
                      Inl msg \<Rightarrow> (Returns (u, Some (ExternalError msg)), s)
                    | Inr k \<Rightarrow>
                        (Returns (u\<lparr>Nonce := Text10 k\<rparr>, None),
                         s(Address u \<mapsto> u\<lparr>Nonce := Text10 k\<rparr>)))))"
  by (simp add: Authenticate_def Authenticate_after_Get_def Get_def Update_def GetNonce_def
      signature_outcome_def Let_def split: option.split sum.split)

lemma SigninHandler_valid:
  "Validate_Signin p = None \<Longrightarrow>
   SigninHandler lib jl now r j s (Some p) =
     (case Authenticate lib r s (ToLower (sig_Address p)) (sig_Nonce p) (sig_Sig p) of
        (Panics, st) \<Rightarrow> (Panics, st)
      | (Returns (user, None), st) \<Rightarrow>
          (case CreateStandard jl now j (Address user) of
             Inl _ \<Rightarrow> (Returns (StatusInternalServerError, None), st)
           | Inr signedToken \<Rightarrow> (Returns (StatusOK, Some signedToken), st))
      | (Returns (user, Some e), st) \<Rightarrow>
          if e = ErrAuthError then (Returns (StatusUnauthorized, None), st)
          else (Returns (StatusInternalServerError, None), st))"
  by (simp add: SigninHandler_def split: prod.split go_result.split option.split)

lemma registry_inv_key: "registry_inv s \<Longrightarrow> s a = Some u \<Longrightarrow> Address u = a"
  by (simp add: registry_inv_def)

lemma CreateIfNotExists_cases:
  "CreateIfNotExists m u =
     (if Address u \<in> dom m then (Some ErrUserExists, m) else (None, m(Address u \<mapsto> u)))"
  by (auto simp: CreateIfNotExists_def split: option.split)

lemma RegisterHandler_valid:
  "Validate_Register p = None \<Longrightarrow> r max_nonce = Inr k \<Longrightarrow>
   RegisterHandler r s (Some p) =
     (if ToLower (reg_Address p) \<in> dom s then ((StatusConflict, None), s)
      else ((StatusCreated, None),
            s(ToLower (reg_Address p) \<mapsto> \<lparr>Address = ToLower (reg_Address p), Nonce = Text10 k\<rparr>)))"
  by (simp add: RegisterHandler_def GetNonce_def CreateIfNotExists_cases Let_def)

lemma registry_inv_empty: "registry_inv NewMemStorage"
  by (simp add: registry_inv_def NewMemStorage_def)

lemma registry_inv_insert:
  "registry_inv s \<Longrightarrow> Address u = k \<Longrightarrow> ToLower k = k \<Longrightarrow> registry_inv (s(k \<mapsto> u))"
  by (simp add: registry_inv_def)

lemma RegisterHandler_storage:
  "RegisterHandler r s req = (resp, s') \<Longrightarrow>
   s' = s \<or> (\<exists>k n. s' = s(ToLower k \<mapsto> \<lparr>Address = ToLower k, Nonce = n\<rparr>))"
  by (auto simp: RegisterHandler_def CreateIfNotExists_cases Let_def
      split: option.splits if_splits prod.splits)

lemma RegisterHandler_inv:
  assumes "registry_inv s" and "RegisterHandler r s req = (resp, s')"
  shows "registry_inv s'"
  using RegisterHandler_storage [OF assms(2)] assms(1)
  by (auto simp: registry_inv_insert ToLower_idem)

lemma Authenticate_storage:
  "Authenticate lib r s a n sg = (res, s') \<Longrightarrow>
   s' = s \<or> (\<exists>u k. s a = Some u \<and> s' = s(Address u \<mapsto> u\<lparr>Nonce := k\<rparr>))"
  by (auto simp: Authenticate_cases
      split: option.splits sig_outcome.splits if_splits sum.splits)

lemma Authenticate_inv:
  assumes "registry_inv s" and "Authenticate lib r s a n sg = (res, s')"
  shows "registry_inv s'"
proof -
  from Authenticate_storage [OF assms(2)]
  consider "s' = s" | u k where "s a = Some u" "s' = s(Address u \<mapsto> u\<lparr>Nonce := k\<rparr>)"
    by blast
  then show ?thesis
  proof cases
    case 1
    with assms(1) show ?thesis by simp
  next
    case 2
    from assms(1) 2(1) have "Address u = a" "ToLower a = a"
      by (simp_all add: registry_inv_def)
    with assms(1) 2(2) show ?thesis
      by (simp add: registry_inv_insert)
  qed
qed

lemma SigninHandler_storage:
  "snd (SigninHandler lib jl now r j s req) =
     (case req of
        None \<Rightarrow> s
      | Some p \<Rightarrow>
          if Validate_Signin p \<noteq> None then s
          else snd (Authenticate lib r s (ToLower (sig_Address p)) (sig_Nonce p) (sig_Sig p)))"
  by (simp add: SigninHandler_def Let_def
      split: option.split prod.split go_result.split sum.split)

lemma SigninHandler_inv:
  assumes "registry_inv s" and "SigninHandler lib jl now r j s req = (resp, s')"
  shows "registry_inv s'"
proof -
  have s': "s' = snd (SigninHandler lib jl now r j s req)"
    using assms(2) by simp
  show ?thesis
  proof (cases "\<exists>p. req = Some p \<and> Validate_Signin p = None")
    case True
    then obtain p where p: "req = Some p" "Validate_Signin p = None" by blast
    obtain res st where
      a: "Authenticate lib r s (ToLower (sig_Address p)) (sig_Nonce p) (sig_Sig p) = (res, st)"
      by (cases "Authenticate lib r s (ToLower (sig_Address p)) (sig_Nonce p) (sig_Sig p)")
    have "s' = st" using s' p a by (simp add: SigninHandler_storage)
    with Authenticate_inv [OF assms(1) a] show ?thesis by simp
  next
    case False
    then have "s' = s" using s' by (auto simp: SigninHandler_storage split: option.split)
    with assms(1) show ?thesis by simp
  qed
qed

lemma UserNonceHandler_storage: "snd (UserNonceHandler s a) = s"
  by (simp add: UserNonceHandler_def Get_def split: option.split)

lemma reachable_inv: "reachable s \<Longrightarrow> registry_inv s"
proof (induction rule: reachable.induct)
  case init
  show ?case by (rule registry_inv_empty)
next
  case (register s rand_Int req resp s')
  then show ?case using RegisterHandler_inv by blast
next
  case (lookup s address resp s')
  then show ?case using UserNonceHandler_storage [of s address] by simp
next
  case (signin s lib jl now rand_Int j sreq sresp s')
  then show ?case using SigninHandler_inv by blast
qed

lemma Verify_cases:
  "Verify jl now j tok =
     (case ParseUnverified jl tok of
        Inl _ \<Rightarrow> Inl ErrAuthError
      | Inr t \<Rightarrow>
          if (\<exists>h. Method t = SigningMethodHMAC h) \<and> claims_Valid now (Claims t) \<and>
             MethodVerify jl (Method t) (SigningInput t) (Signature t) (hmacSecret j)
          then Inr (Claims t) else Inl ErrAuthError)"
  by (auto simp: Verify_def ParseWithClaims_def Verify_keyFunc_def
      split: sum.split SigningMethod.split)

lemma expired_invalid: "ExpiresAt c = Some e \<Longrightarrow> e \<le> now \<Longrightarrow> \<not> claims_Valid now c"
  by (simp add: claims_Valid_def)

lemma Authenticate_after_Get_cases:
  "Authenticate_after_Get lib r st (u, None) n sg =
     (if Nonce u \<noteq> n then (Returns (u, Some ErrAuthError), st)
      else
        (case signature_outcome lib n sg of
           BadHex \<Rightarrow> (Panics, st)
         | TooShort \<Rightarrow> (Panics, st)
         | NoRecovery e \<Rightarrow> (Returns (u, Some (ExternalError e)), st)
         | Recovered addr \<Rightarrow>
             if Address u \<noteq> addr then (Returns (u, Some ErrAuthError), st)
             else
               (case r max_nonce of
                  Inl msg \<Rightarrow> (Returns (u, Some (ExternalError msg)), st)
                | Inr k \<Rightarrow>
                    (Returns (u\<lparr>Nonce := Text10 k\<rparr>, None),
                     st(Address u \<mapsto> u\<lparr>Nonce := Text10 k\<rparr>)))))"
  by (simp add: Authenticate_after_Get_def Update_def GetNonce_def
      signature_outcome_def Let_def split: option.split sum.split)

lemma Authenticate_after_Get_result:
  "fst (Authenticate_after_Get lib r st got n sg) = fst (Authenticate_after_Get lib r st' got n sg)"
  by (simp add: Authenticate_after_Get_def Let_def
      split: prod.split sum.split option.split)

lemma run_two_alone:
  "run_two lib r1 r2 [First, First] (Called a n sg, t2, st) =
     (Finished (fst (Authenticate lib r1 st a n sg)), t2, snd (Authenticate lib r1 st a n sg))"
  by (simp add: Authenticate_def split: prod.split)

lemma race_both_succeed:
  assumes one: "fst (Authenticate lib r1 st a n sg) = Returns (u1, None)"
    and two: "fst (Authenticate lib r2 st a n sg) = Returns (u2, None)"
  shows "\<exists>st'. run_two lib r1 r2 [First, Second, First, Second]
           (Called a n sg, Called a n sg, st) =
           (Finished (Returns (u1, None)), Finished (Returns (u2, None)), st')"
proof -
  let ?g = "Get st a"
  obtain x1 st1 where s1: "Authenticate_after_Get lib r1 st ?g n sg = (x1, st1)"
    by (cases "Authenticate_after_Get lib r1 st ?g n sg")
  obtain x2 st2 where s2: "Authenticate_after_Get lib r2 st1 ?g n sg = (x2, st2)"
    by (cases "Authenticate_after_Get lib r2 st1 ?g n sg")
  have x1: "x1 = Returns (u1, None)"
    using one s1 by (simp add: Authenticate_def)
  have "x2 = fst (Authenticate_after_Get lib r2 st ?g n sg)"
    using s2 Authenticate_after_Get_result [of lib r2 st1 ?g n sg st] by simp
  then have x2: "x2 = Returns (u2, None)"
    using two by (simp add: Authenticate_def)
  have "run_two lib r1 r2 [First, Second, First, Second] (Called a n sg, Called a n sg, st) =
      (Finished x1, Finished x2, st2)"
    by (simp add: s1 s2)
  with x1 x2 show ?thesis by blast
qed

subsection \<open>Concurrent calls of \<^verbatim>\<open>CreateIfNotExists\<close>\<close>

text \<open>
  Every step of either goroutine keeps the two calls in one of the two orders, so a run that
  ends with both calls returned gives what the calls give one after the other, with
  \<open>CreateIfNotExists\<close> as a single step. A call running alone is that single step, and
  the two goroutines never block each other for good.
\<close>

lemma serial_first_moves:
  assumes "serial m ua ub ta tb sh" and "create_step ta sh = Some (ta', sh')"
  shows "serial m ua ub ta' tb sh'"
proof -
  from assms(1) consider
      (start) "ta = C_Call ua" "tb = C_Call ub" "\<not> lock_held sh" "users sh = m"
    | (inside) "in_section m ua ta (users sh)" "tb = C_Call ub" "lock_held sh"
    | (returned) "ta = C_Return (fst (CreateIfNotExists m ua))"
    unfolding serial_def by blast
  then show ?thesis
  proof cases
    case start
    with assms(2) show ?thesis by (auto simp: serial_def in_section_def)
  next
    case inside
    show ?thesis
    proof (cases ta)
      case (C_Locked v)
      with inside assms(2) show ?thesis
        by (auto simp: serial_def in_section_def CreateIfNotExists_def split: option.splits)
    next
      case (C_Insert v)
      with inside assms(2) show ?thesis
        by (auto simp: serial_def in_section_def CreateIfNotExists_def)
    next
      case (C_Unlock e)
      with inside assms(2) show ?thesis
        by (auto simp: serial_def in_section_def dest: arg_cong [where f = fst] arg_cong [where f = snd])
    qed (use inside in \<open>simp_all add: in_section_def\<close>)
  next
    case returned
    with assms(2) show ?thesis by simp
  qed
qed


lemma serial_second_moves:
  assumes "serial m ua ub ta tb sh" and "create_step tb sh = Some (tb', sh')"
  shows "serial m ua ub ta tb' sh' \<or> serial m ub ua tb' ta sh'"
proof -
  let ?e = "fst (CreateIfNotExists m ua)" and ?m1 = "snd (CreateIfNotExists m ua)"
  from assms(1) consider
      (start) "ta = C_Call ua" "tb = C_Call ub" "\<not> lock_held sh" "users sh = m"
    | (waiting) "tb = C_Call ub" "lock_held sh"
    | (later) "ta = C_Return ?e" "tb = C_Call ub" "\<not> lock_held sh" "users sh = ?m1"
    | (inside) "ta = C_Return ?e" "in_section ?m1 ub tb (users sh)" "lock_held sh"
    | (returned) eb where "tb = C_Return eb"
    unfolding serial_def by blast
  then show ?thesis
  proof cases
    case start
    with assms(2) have "serial m ub ua tb' ta sh'"
      by (auto simp: serial_def in_section_def)
    then show ?thesis ..
  next
    case waiting
    with assms(2) show ?thesis by simp
  next
    case later
    with assms(2) have "serial m ua ub ta tb' sh'"
      by (auto simp: serial_def in_section_def)
    then show ?thesis ..
  next
    case inside
    have "serial m ua ub ta tb' sh'"
    proof (cases tb)
      case (C_Locked v)
      with inside assms(2) show ?thesis
        by (auto simp: serial_def in_section_def CreateIfNotExists_def [of ?m1]
            split: option.splits)
    next
      case (C_Insert v)
      with inside assms(2) show ?thesis
        by (auto simp: serial_def in_section_def CreateIfNotExists_def [of ?m1])
    next
      case (C_Unlock e)
      with inside assms(2) show ?thesis
        by (auto simp: serial_def in_section_def)
    qed (use inside in \<open>simp_all add: in_section_def\<close>)
    then show ?thesis ..
  next
    case returned
    with assms(2) show ?thesis by simp
  qed
qed

lemma run_creates_serialised:
  "serialised m u1 u2 cfg \<Longrightarrow> serialised m u1 u2 (run_creates sched cfg)"
proof (induction sched arbitrary: cfg)
  case Nil
  then show ?case by simp
next
  case (Cons x sched)
  obtain t1 t2 sh where cfg: "cfg = (t1, t2, sh)" by (cases cfg)
  from Cons.prems cfg have inv: "serial m u1 u2 t1 t2 sh \<or> serial m u2 u1 t2 t1 sh"
    by (simp add: serialised_def)
  show ?case
  proof (cases x)
    case First
    show ?thesis
    proof (cases "create_step t1 sh")
      case None
      with First cfg Cons show ?thesis by simp
    next
      case (Some p)
      obtain t1' sh' where p: "p = (t1', sh')" by (cases p)
      from inv Some p have "serial m u1 u2 t1' t2 sh' \<or> serial m u2 u1 t2 t1' sh'"
        using serial_first_moves [of m u1 u2 t1 t2 sh t1' sh']
          serial_second_moves [of m u2 u1 t2 t1 sh t1' sh'] by blast
      then have "serialised m u1 u2 (t1', t2, sh')" by (simp add: serialised_def)
      from Cons.IH [OF this] First cfg Some p show ?thesis by simp
    qed
  next
    case Second
    show ?thesis
    proof (cases "create_step t2 sh")
      case None
      with Second cfg Cons show ?thesis by simp
    next
      case (Some p)
      obtain t2' sh' where p: "p = (t2', sh')" by (cases p)
      from inv Some p have "serial m u1 u2 t1 t2' sh' \<or> serial m u2 u1 t2' t1 sh'"
        using serial_second_moves [of m u1 u2 t1 t2 sh t2' sh']
          serial_first_moves [of m u2 u1 t2 t1 sh t2' sh'] by blast
      then have "serialised m u1 u2 (t1, t2', sh')" by (simp add: serialised_def)
      from Cons.IH [OF this] Second cfg Some p show ?thesis by simp
    qed
  qed
qed

lemma CreateIfNotExists_atomic:
  assumes "run_creates sched (C_Call u1, C_Call u2, \<lparr>lock_held = False, users = m\<rparr>) =
      (C_Return x1, C_Return x2, fin)"
  shows "\<not> lock_held fin \<and>
         ((\<exists>m1. CreateIfNotExists m u1 = (x1, m1) \<and> CreateIfNotExists m1 u2 = (x2, users fin)) \<or>
          (\<exists>m2. CreateIfNotExists m u2 = (x2, m2) \<and> CreateIfNotExists m2 u1 = (x1, users fin)))"
proof -
  have "serialised m u1 u2 (C_Call u1, C_Call u2, \<lparr>lock_held = False, users = m\<rparr>)"
    by (simp add: serialised_def serial_def)
  from run_creates_serialised [OF this, of sched] assms
  have "serial m u1 u2 (C_Return x1) (C_Return x2) fin \<or>
        serial m u2 u1 (C_Return x2) (C_Return x1) fin"
    by (simp add: serialised_def)
  then show ?thesis
  proof
    assume "serial m u1 u2 (C_Return x1) (C_Return x2) fin"
    then have "\<not> lock_held fin" "x1 = fst (CreateIfNotExists m u1)"
      "(x2, users fin) = CreateIfNotExists (snd (CreateIfNotExists m u1)) u2"
      by (auto simp: serial_def in_section_def)
    then show ?thesis by (metis prod.collapse)
  next
    assume "serial m u2 u1 (C_Return x2) (C_Return x1) fin"
    then have "\<not> lock_held fin" "x2 = fst (CreateIfNotExists m u2)"
      "(x1, users fin) = CreateIfNotExists (snd (CreateIfNotExists m u2)) u1"
      by (auto simp: serial_def in_section_def)
    then show ?thesis by (metis prod.collapse)
  qed
qed

lemma CreateIfNotExists_no_lost_update:
  assumes run: "run_creates sched (C_Call u1, C_Call u2, \<lparr>lock_held = False, users = m\<rparr>) =
      (C_Return x1, C_Return x2, fin)"
    and same: "Address u1 = Address u2" and absent: "m (Address u1) = None"
  shows "(x1 = None \<and> x2 = Some ErrUserExists \<and> users fin = m(Address u1 \<mapsto> u1)) \<or>
         (x1 = Some ErrUserExists \<and> x2 = None \<and> users fin = m(Address u1 \<mapsto> u2))"
  using CreateIfNotExists_atomic [OF run] same absent
  by (auto simp: CreateIfNotExists_cases split: if_splits)

lemma create_alone:
  "run_creates [First, First, First, First] (C_Call u, t2, \<lparr>lock_held = False, users = m\<rparr>) =
     (C_Return (fst (CreateIfNotExists m u)), t2,
      \<lparr>lock_held = False, users = snd (CreateIfNotExists m u)\<rparr>)"
  by (cases "m (Address u)") (simp_all add: CreateIfNotExists_def)

lemma creates_no_deadlock:
  assumes "serialised m u1 u2 (t1, t2, sh)"
  shows "(\<exists>x1 x2. t1 = C_Return x1 \<and> t2 = C_Return x2) \<or>
         create_step t1 sh \<noteq> None \<or> create_step t2 sh \<noteq> None"
proof -
  have one: "(\<exists>xa xb. ta = C_Return xa \<and> tb = C_Return xb) \<or>
         create_step ta sh \<noteq> None \<or> create_step tb sh \<noteq> None"
    if "serial m ua ub ta tb sh" for ua ub ta tb
  proof (cases ta)
    case (C_Return e)
    with that show ?thesis
      by (cases tb) (auto simp: serial_def in_section_def split: option.splits)
  qed (use that in \<open>auto simp: serial_def in_section_def split: option.splits\<close>)
  from assms one [of u1 u2 t1 t2] one [of u2 u1 t2 t1] show ?thesis
    by (auto simp: serialised_def)
qed

subsection \<open>The sample values\<close>

lemma addr_a_valid: "hexRegex_MatchString addr_a"
  by code_simp

lemma addr_a_lower: "ToLower addr_a = addr_a"
  by code_simp

lemma one_user_inv: "registry_inv one_user"
  by (simp add: registry_inv_def one_user_def NewMemStorage_def user_a_def addr_a_lower)

lemma one_user_a: "one_user addr_a = Some (user_a ''7'')"
  by (simp add: one_user_def)

lemma user_a_fields: "Address (user_a n) = addr_a" "Nonce (user_a n) = n"
  by (simp_all add: user_a_def)

lemma out_a: "signature_outcome sample_crypto n sig_by_a = Recovered addr_a"
  by code_simp

lemma out_b: "signature_outcome sample_crypto n sig_by_b = Recovered addr_b"
  by code_simp

lemma addr_b_neq: "addr_b \<noteq> addr_a"
  by code_simp

lemma addr_A_valid: "hexRegex_MatchString addr_A"
  by code_simp

lemma addr_A_lower: "ToLower addr_A = addr_a"
  by code_simp

lemma nonce_7_valid: "nonceRegex_MatchString ''7''"
  by code_simp

lemma signin_a_valid:
  "nonceRegex_MatchString n \<Longrightarrow> sg \<noteq> [] \<Longrightarrow> Validate_Signin (signin_a n sg) = None"
  using addr_A_valid by (simp add: Validate_Signin_def signin_a_def)

lemma signin_a_fields:
  "ToLower (sig_Address (signin_a n sg)) = addr_a"
  "sig_Nonce (signin_a n sg) = n" "sig_Sig (signin_a n sg) = sg"
  by code_simp+

lemma out_bad_v:
  "signature_outcome sample_crypto n sig_bad_v = NoRecovery ''invalid signature recovery id''"
  by code_simp

lemma out_zz: "signature_outcome sample_crypto n ''zz'' = BadHex"
  by code_simp

lemma out_short: "signature_outcome sample_crypto n ''0x00'' = TooShort"
  by code_simp

lemma Authenticate_sample_ok:
  "Authenticate sample_crypto (rand_gives 8) one_user addr_a ''7'' sig_by_a =
     (Returns (user_a ''8'', None), one_user(addr_a \<mapsto> user_a ''8''))"
proof -
  have "Text10 8 = ''8''" by code_simp
  then show ?thesis
    by (simp add: Authenticate_cases one_user_a user_a_fields out_a rand_gives_def)
      (simp add: user_a_def)
qed

lemma Text10_7: "Text10 7 = ''7''" by code_simp
lemma Text10_8: "Text10 8 = ''8''" by code_simp

lemma register_A_addr: "ToLower (reg_Address register_A) = addr_a"
  by code_simp

lemma register_A_valid: "hexRegex_MatchString (reg_Address register_A)"
  by code_simp

lemma register_A_first:
  "RegisterHandler (rand_gives 7) NewMemStorage (Some register_A) = ((StatusCreated, None), one_user)"
proof -
  have v: "Validate_Register register_A = None"
    using register_A_valid by (simp add: Validate_Register_def)
  have e: "rand_gives 7 max_nonce = Inr 7" by (simp add: rand_gives_def)
  show ?thesis
    by (simp add: RegisterHandler_valid [where k = 7] v e register_A_addr Text10_7 one_user_def
        user_a_def NewMemStorage_def)
qed

lemma reachable_one_user: "reachable one_user"
  using reachable.register [OF reachable.init register_A_first] .

lemma Text10_9: "Text10 9 = ''9''" by code_simp

lemma sample_parse:
  "ParseUnverified sample_jwt ''good'' = Inr (sample_token (SigningMethodHMAC ''HS256'') ''mac'')"
  "ParseUnverified sample_jwt ''forged'' = Inr (sample_token (SigningMethodHMAC ''HS256'') ''xxx'')"
  "ParseUnverified sample_jwt ''none'' = Inr (sample_token SigningMethodNone [])"
  "ParseUnverified sample_jwt ''a.b'' = Inl ''token contains an invalid number of segments''"
  by (simp_all add: sample_jwt_def)

lemma sample_token_fields:
  "Method (sample_token m s) = m" "Claims (sample_token m s) = sample_claims"
  "SigningInput (sample_token m s) = ''header.claims''" "Signature (sample_token m s) = s"
  by (simp_all add: sample_token_def)

lemma sample_mac:
  "MethodVerify sample_jwt (SigningMethodHMAC h) i s (hmacSecret sample_provider) = (s = ''mac'')"
  by (simp add: sample_jwt_def sample_provider_def NewJwtHmacProvider_def)

lemma sample_claims_valid: "claims_Valid 50 sample_claims" "ExpiresAt sample_claims = Some 100"
  by (simp_all add: claims_Valid_def sample_claims_def)

section \<open>What a failed authentication returns\<close>

text \<open>
  Claim C10. When \<^verbatim>\<open>Authenticate\<close> fails with \<^verbatim>\<open>ErrAuthError\<close>, because the
  submitted nonce is not the stored one or because the signature recovers another
  address, its first return value is the stored user record, current nonce included, and
  the registry is as it was. Conversely every \<^verbatim>\<open>ErrAuthError\<close> it returns comes with
  the stored record.
\<close>

theorem Authenticate_AuthError_returns_stored_user:
  "(s a = Some u \<and> Nonce u \<noteq> n \<longrightarrow>
      Authenticate lib r s a n sg = (Returns (u, Some ErrAuthError), s)) \<and>
   (s a = Some u \<and> Nonce u = n \<and> signature_outcome lib n sg = Recovered addr \<and>
    Address u \<noteq> addr \<longrightarrow>
      Authenticate lib r s a n sg = (Returns (u, Some ErrAuthError), s)) \<and>
   (Authenticate lib r s a n sg = (Returns (u', Some ErrAuthError), s') \<longrightarrow>
      s a = Some u' \<and> s' = s)"
  by (auto simp: Authenticate_cases split: option.splits sig_outcome.splits if_splits sum.splits)

theorem Authenticate_AuthError_returns_stored_user_witness:
  "Authenticate sample_crypto (rand_gives 8) one_user addr_a ''9'' sig_by_a =
     (Returns (user_a ''7'', Some ErrAuthError), one_user) \<and>
   Authenticate sample_crypto (rand_gives 8) one_user addr_a ''7'' sig_by_b =
     (Returns (user_a ''7'', Some ErrAuthError), one_user) \<and>
   one_user addr_a = Some (user_a ''7'') \<and> Nonce (user_a ''7'') = ''7''"
proof -
  have n: "Nonce (user_a ''7'') = ''7''" "Nonce (user_a ''7'') \<noteq> ''9''"
    by (simp_all add: user_a_def)
  have b: "Address (user_a ''7'') \<noteq> addr_b"
    using addr_b_neq by (simp add: user_a_def)
  have 1: "Authenticate sample_crypto (rand_gives 8) one_user addr_a ''9'' sig_by_a =
     (Returns (user_a ''7'', Some ErrAuthError), one_user)"
    using Authenticate_AuthError_returns_stored_user
      [of one_user addr_a "user_a ''7''" "''9''" sample_crypto "rand_gives 8" sig_by_a,
       THEN conjunct1] one_user_a n by blast
  have 2: "Authenticate sample_crypto (rand_gives 8) one_user addr_a ''7'' sig_by_b =
     (Returns (user_a ''7'', Some ErrAuthError), one_user)"
    using Authenticate_AuthError_returns_stored_user
      [of one_user addr_a "user_a ''7''" "''7''" sample_crypto "rand_gives 8" sig_by_b
          addr_b, THEN conjunct2, THEN conjunct1]
      one_user_a n b out_b by blast
  from 1 2 one_user_a n show ?thesis by blast
qed

text \<open>
  Claim C6. On a registered address, a submitted nonce that is not, as a string, the
  stored one fails with \<^verbatim>\<open>ErrAuthError\<close>; so does a signature that decodes and
  recovers an address which, in lower case, is not the claimed one. The sign-in handler
  answers 401 Unauthorized in both cases, never 500, and the registry is unchanged.
\<close>

theorem mismatch_is_Unauthorized:
  assumes inv: "registry_inv s" and reg: "s a = Some u"
  shows "(Nonce u \<noteq> n \<longrightarrow>
            Authenticate lib r s a n sg = (Returns (u, Some ErrAuthError), s)) \<and>
         (Nonce u = n \<and> signature_outcome lib n sg = Recovered addr \<and> addr \<noteq> a \<longrightarrow>
            Authenticate lib r s a n sg = (Returns (u, Some ErrAuthError), s)) \<and>
         (Validate_Signin p = None \<and> ToLower (sig_Address p) = a \<and> sig_Nonce p = n \<and>
          sig_Sig p = sg \<and>
          (Nonce u \<noteq> n \<or> signature_outcome lib n sg = Recovered addr \<and> addr \<noteq> a) \<longrightarrow>
            SigninHandler lib jl now r j s (Some p) = (Returns (StatusUnauthorized, None), s))"
proof -
  have key: "Address u = a" using inv reg by (rule registry_inv_key)
  have 1: "Nonce u \<noteq> n \<Longrightarrow> Authenticate lib r s a n sg = (Returns (u, Some ErrAuthError), s)"
    using reg by (simp add: Authenticate_cases)
  have 2: "Nonce u = n \<Longrightarrow> signature_outcome lib n sg = Recovered addr \<Longrightarrow> addr \<noteq> a \<Longrightarrow>
      Authenticate lib r s a n sg = (Returns (u, Some ErrAuthError), s)"
    using reg key by (auto simp add: Authenticate_cases)
  have 3: "SigninHandler lib jl now r j s (Some p) = (Returns (StatusUnauthorized, None), s)"
    if v: "Validate_Signin p = None" and p: "ToLower (sig_Address p) = a" "sig_Nonce p = n" "sig_Sig p = sg"
      and c: "Nonce u \<noteq> n \<or> signature_outcome lib n sg = Recovered addr \<and> addr \<noteq> a"
  proof -
    have "Authenticate lib r s a n sg = (Returns (u, Some ErrAuthError), s)"
      using c 1 2 by blast
    then show ?thesis using v p by (simp add: SigninHandler_valid)
  qed
  from 1 2 3 show ?thesis by blast
qed

theorem mismatch_is_Unauthorized_witness:
  "SigninHandler sample_crypto sample_jwt 50 (rand_gives 8) sample_provider one_user
     (Some (signin_a ''9'' sig_by_a)) = (Returns (StatusUnauthorized, None), one_user) \<and>
   SigninHandler sample_crypto sample_jwt 50 (rand_gives 8) sample_provider one_user
     (Some (signin_a ''7'' sig_by_b)) = (Returns (StatusUnauthorized, None), one_user) \<and>
   Authenticate sample_crypto (rand_gives 8) one_user addr_a ''9'' sig_by_a =
     (Returns (user_a ''7'', Some ErrAuthError), one_user)"
proof -
  have n9: "nonceRegex_MatchString ''9''" by code_simp
  have sa: "sig_by_a \<noteq> []" and sb: "sig_by_b \<noteq> []" by code_simp+
  note T = mismatch_is_Unauthorized [OF one_user_inv one_user_a]
  have 1: "SigninHandler sample_crypto sample_jwt 50 (rand_gives 8) sample_provider one_user
     (Some (signin_a ''9'' sig_by_a)) = (Returns (StatusUnauthorized, None), one_user)"
    using T [of "''9''" sample_crypto "rand_gives 8" sig_by_a addr_a "signin_a ''9'' sig_by_a"
        sample_jwt 50 sample_provider, THEN conjunct2, THEN conjunct2]
      signin_a_valid [OF n9 sa] signin_a_fields user_a_fields by simp
  have 2: "SigninHandler sample_crypto sample_jwt 50 (rand_gives 8) sample_provider one_user
     (Some (signin_a ''7'' sig_by_b)) = (Returns (StatusUnauthorized, None), one_user)"
    using T [of "''7''" sample_crypto "rand_gives 8" sig_by_b addr_b
        "signin_a ''7'' sig_by_b" sample_jwt 50 sample_provider, THEN conjunct2, THEN conjunct2]
      signin_a_valid [OF nonce_7_valid sb] signin_a_fields user_a_fields out_b addr_b_neq
    by blast
  have 3: "Authenticate sample_crypto (rand_gives 8) one_user addr_a ''9'' sig_by_a =
     (Returns (user_a ''7'', Some ErrAuthError), one_user)"
    using T [of "''9''" sample_crypto "rand_gives 8" sig_by_a, THEN conjunct1] user_a_fields
    by simp
  from 1 2 3 show ?thesis by blast
qed

section \<open>Nonce rotation\<close>

text \<open>
  Claim C4. When the nonce matches and the signature recovers the user's address, but
  \<^verbatim>\<open>rand.Int\<close> returns an error, \<^verbatim>\<open>GetNonce\<close> and so \<^verbatim>\<open>Authenticate\<close>
  return that error, the registry (the old nonce with it) is unchanged, and the handler
  answers 500 Internal Server Error: the attempt has failed.
\<close>

theorem rotation_failure_keeps_old_nonce:
  assumes reg: "s a = Some u" and nonce: "Nonce u = n"
    and sig: "signature_outcome lib n sg = Recovered (Address u)"
    and entropy: "r max_nonce = Inl msg"
  shows "GetNonce r = ([], Some (ExternalError msg)) \<and>
         Authenticate lib r s a n sg = (Returns (u, Some (ExternalError msg)), s) \<and>
         (Validate_Signin p = None \<and> ToLower (sig_Address p) = a \<and> sig_Nonce p = n \<and>
          sig_Sig p = sg \<longrightarrow>
            SigninHandler lib jl now r j s (Some p) =
              (Returns (StatusInternalServerError, None), s))"
proof -
  have g: "GetNonce r = ([], Some (ExternalError msg))"
    using entropy by (simp add: GetNonce_def)
  have a: "Authenticate lib r s a n sg = (Returns (u, Some (ExternalError msg)), s)"
    using reg nonce sig entropy by (simp add: Authenticate_cases)
  have h: "SigninHandler lib jl now r j s (Some p) = (Returns (StatusInternalServerError, None), s)"
    if "Validate_Signin p = None" "ToLower (sig_Address p) = a" "sig_Nonce p = n" "sig_Sig p = sg"
    using that a by (simp add: SigninHandler_valid)
  from g a h show ?thesis by blast
qed

theorem rotation_failure_keeps_old_nonce_witness:
  "Authenticate sample_crypto rand_fails one_user addr_a ''7'' sig_by_a =
     (Returns (user_a ''7'', Some (ExternalError ''entropy source unavailable'')), one_user) \<and>
   SigninHandler sample_crypto sample_jwt 50 rand_fails sample_provider one_user
     (Some (signin_a ''7'' sig_by_a)) = (Returns (StatusInternalServerError, None), one_user) \<and>
   one_user addr_a = Some (user_a ''7'')"
proof -
  have sa: "sig_by_a \<noteq> []" by code_simp
  have e: "rand_fails max_nonce = Inl ''entropy source unavailable''"
    by (simp add: rand_fails_def)
  have o: "signature_outcome sample_crypto ''7'' sig_by_a = Recovered (Address (user_a ''7''))"
    by (simp add: out_a user_a_fields)
  have n7: "Nonce (user_a ''7'') = ''7''" by (simp add: user_a_fields)
  note T = rotation_failure_keeps_old_nonce
    [of one_user addr_a "user_a ''7''" "''7''" sample_crypto sig_by_a rand_fails
      "''entropy source unavailable''" "signin_a ''7'' sig_by_a" sample_jwt 50 sample_provider,
     OF one_user_a n7 o e]
  show ?thesis
    using T signin_a_valid [OF nonce_7_valid sa] signin_a_fields one_user_a by blast
qed

text \<open>
  Claim C1 says that a nonce, once consumed by a successful sign-in, can never
  authenticate again. The new nonce is whatever \<^verbatim>\<open>rand.Int\<close> returns, and the code does
  not compare it with the old one. Here the user's nonce is 7 and the entropy source
  returns 7 at the sign-in: the sign-in succeeds, the registry is as before, and the same
  address, nonce and signature succeed a second time.
\<close>

theorem replay_succeeds_when_nonce_repeats:
  "Authenticate sample_crypto (rand_gives 7) one_user addr_a ''7'' sig_by_a =
     (Returns (user_a ''7'', None), one_user) \<and>
   Authenticate sample_crypto (rand_gives 8) one_user addr_a ''7'' sig_by_a =
     (Returns (user_a ''8'', None), one_user(addr_a \<mapsto> user_a ''8''))"
proof -
  have u: "(user_a ''7'')\<lparr>Nonce := m\<rparr> = user_a m" for m
    by (simp add: user_a_def)
  have s: "one_user(addr_a \<mapsto> user_a ''7'') = one_user"
    by (simp add: one_user_def)
  show ?thesis
    by (simp add: Authenticate_cases one_user_a user_a_fields out_a rand_gives_def
        Text10_7 Text10_8 u s)
qed

text \<open>
  Claim C1, amended. In a registry where each record sits under its own address, a
  successful \<^verbatim>\<open>Authenticate\<close> has stored the nonce that \<^verbatim>\<open>GetNonce\<close> generated
  before it returns. When that nonce differs from the consumed one, presenting the same
  address, nonce and signature again fails the nonce check with \<^verbatim>\<open>ErrAuthError\<close>,
  whatever the entropy source does then, and the handler answers 401.
\<close>

theorem replay_fails_after_success:
  assumes inv: "registry_inv s"
    and ok: "Authenticate lib r s a n sg = (Returns (u, None), s')"
    and fresh: "Nonce u \<noteq> n"
  shows "GetNonce r = (Nonce u, None) \<and> s' a = Some u \<and> registry_inv s' \<and>
         Authenticate lib r' s' a n sg = (Returns (u, Some ErrAuthError), s') \<and>
         (Validate_Signin p = None \<and> ToLower (sig_Address p) = a \<and> sig_Nonce p = n \<and>
          sig_Sig p = sg \<longrightarrow>
            SigninHandler lib jl now r' j s' (Some p) = (Returns (StatusUnauthorized, None), s'))"
proof -
  from ok obtain u0 k where u0: "s a = Some u0" and k: "r max_nonce = Inr k"
    and u: "u = u0\<lparr>Nonce := Text10 k\<rparr>" and s': "s' = s(Address u0 \<mapsto> u)"
    by (auto simp: Authenticate_cases split: option.splits sig_outcome.splits if_splits sum.splits)
  have key: "Address u0 = a" using inv u0 by (rule registry_inv_key)
  have low: "ToLower a = a" using inv u0 by (simp add: registry_inv_def)
  have g: "GetNonce r = (Nonce u, None)" using k u by (simp add: GetNonce_def)
  have st: "s' a = Some u" using s' key by simp
  have inv': "registry_inv s'"
    using inv s' key low u by (auto simp: registry_inv_def)
  have re: "Authenticate lib r' s' a n sg = (Returns (u, Some ErrAuthError), s')"
    using st fresh by (simp add: Authenticate_cases)
  have h: "SigninHandler lib jl now r' j s' (Some p) = (Returns (StatusUnauthorized, None), s')"
    if "Validate_Signin p = None" "ToLower (sig_Address p) = a" "sig_Nonce p = n" "sig_Sig p = sg"
    using that re by (simp add: SigninHandler_valid)
  from g st inv' re h show ?thesis by blast
qed

theorem replay_fails_after_success_witness:
  "Authenticate sample_crypto (rand_gives 8) one_user addr_a ''7'' sig_by_a =
     (Returns (user_a ''8'', None), one_user(addr_a \<mapsto> user_a ''8'')) \<and>
   Authenticate sample_crypto (rand_gives 9) (one_user(addr_a \<mapsto> user_a ''8'')) addr_a ''7''
     sig_by_a = (Returns (user_a ''8'', Some ErrAuthError), one_user(addr_a \<mapsto> user_a ''8'')) \<and>
   SigninHandler sample_crypto sample_jwt 50 (rand_gives 9) sample_provider
     (one_user(addr_a \<mapsto> user_a ''8'')) (Some (signin_a ''7'' sig_by_a)) =
     (Returns (StatusUnauthorized, None), one_user(addr_a \<mapsto> user_a ''8''))"
proof -
  have sa: "sig_by_a \<noteq> []" by code_simp
  have f: "Nonce (user_a ''8'') \<noteq> ''7''" by (simp add: user_a_fields)
  note T = replay_fails_after_success
    [of one_user sample_crypto "rand_gives 8" addr_a "''7''" sig_by_a "user_a ''8''"
      "one_user(addr_a \<mapsto> user_a ''8'')" "rand_gives 9" "signin_a ''7'' sig_by_a"
      sample_jwt 50 sample_provider,
     OF one_user_inv Authenticate_sample_ok f]
  show ?thesis
    using T Authenticate_sample_ok signin_a_valid [OF nonce_7_valid sa] signin_a_fields by blast
qed

text \<open>
  In general: when the generated nonce is the consumed one, the replay succeeds, with any
  library and any registry.
\<close>

lemma replay_succeeds_on_nonce_collision:
  assumes inv: "registry_inv s"
    and ok: "Authenticate lib r s a n sg = (Returns (u, None), s')"
    and same: "Nonce u = n"
  shows "Authenticate lib r s' a n sg = (Returns (u, None), s')"
proof -
  from ok obtain u0 k where u0: "s a = Some u0" and k: "r max_nonce = Inr k"
    and n0: "Nonce u0 = n" and o: "signature_outcome lib n sg = Recovered (Address u0)"
    and u: "u = u0\<lparr>Nonce := Text10 k\<rparr>" and s': "s' = s(Address u0 \<mapsto> u)"
    by (auto simp: Authenticate_cases split: option.splits sig_outcome.splits if_splits sum.splits)
  have key: "Address u0 = a" using inv u0 by (rule registry_inv_key)
  have st: "s' a = Some u" using s' key by simp
  have uu: "u\<lparr>Nonce := Text10 k\<rparr> = u" using u by simp
  have "s'(a \<mapsto> u) = s'" using st by (simp add: fun_upd_idem_iff)
  then show ?thesis
    using st same o k u key uu by (simp add: Authenticate_cases)
qed

section \<open>Malformed signatures\<close>

text \<open>
  Claim C2 says that a malformed signature, with valid address and matching nonce, ends in
  a client error. It does not. A signature string that is not hex makes
  \<^verbatim>\<open>hexutil.MustDecode\<close> panic; one that decodes to fewer than 65 bytes makes the
  write to \<^verbatim>\<open>sig[64]\<close> panic; one that decodes but recovers no key ends in 500, not in
  a status of the 4xx class.
\<close>

theorem malformed_signature_not_client_error:
  "Validate_Signin (signin_a ''7'' ''zz'') = None \<and>
   one_user addr_a = Some (user_a ''7'') \<and> Nonce (user_a ''7'') = ''7'' \<and>
   signature_outcome sample_crypto ''7'' ''zz'' = BadHex \<and>
   SigninHandler sample_crypto sample_jwt 50 (rand_gives 8) sample_provider one_user
     (Some (signin_a ''7'' ''zz'')) = (Panics, one_user) \<and>
   signature_outcome sample_crypto ''7'' ''0x00'' = TooShort \<and>
   SigninHandler sample_crypto sample_jwt 50 (rand_gives 8) sample_provider one_user
     (Some (signin_a ''7'' ''0x00'')) = (Panics, one_user) \<and>
   signature_outcome sample_crypto ''7'' sig_bad_v = NoRecovery ''invalid signature recovery id'' \<and>
   SigninHandler sample_crypto sample_jwt 50 (rand_gives 8) sample_provider one_user
     (Some (signin_a ''7'' sig_bad_v)) = (Returns (StatusInternalServerError, None), one_user)"
proof -
  have sv: "sig_bad_v \<noteq> []" by code_simp
  have v: "Validate_Signin (signin_a ''7'' ''zz'') = None"
    "Validate_Signin (signin_a ''7'' ''0x00'') = None"
    "Validate_Signin (signin_a ''7'' sig_bad_v) = None"
    using sv by (simp_all add: signin_a_valid nonce_7_valid)
  show ?thesis
    using v by (simp add: SigninHandler_valid signin_a_fields Authenticate_cases one_user_a
        user_a_fields out_zz out_short out_bad_v)
qed

text \<open>
  Claim C2, amended. When the signature decodes to at least 65 bytes and
  \<^verbatim>\<open>crypto.SigToPub\<close> returns an error, \<^verbatim>\<open>Authenticate\<close> returns that error,
  which is not \<^verbatim>\<open>ErrAuthError\<close>, the registry is unchanged, and the handler answers
  500 Internal Server Error.
\<close>

theorem unrecoverable_signature_is_internal_error:
  assumes reg: "s a = Some u" and nonce: "Nonce u = n"
    and sig: "signature_outcome lib n sg = NoRecovery e"
  shows "Authenticate lib r s a n sg = (Returns (u, Some (ExternalError e)), s) \<and>
         (Validate_Signin p = None \<and> ToLower (sig_Address p) = a \<and> sig_Nonce p = n \<and>
          sig_Sig p = sg \<longrightarrow>
            SigninHandler lib jl now r j s (Some p) =
              (Returns (StatusInternalServerError, None), s))"
proof -
  have a: "Authenticate lib r s a n sg = (Returns (u, Some (ExternalError e)), s)"
    using reg nonce sig by (simp add: Authenticate_cases)
  have h: "SigninHandler lib jl now r j s (Some p) = (Returns (StatusInternalServerError, None), s)"
    if "Validate_Signin p = None" "ToLower (sig_Address p) = a" "sig_Nonce p = n" "sig_Sig p = sg"
    using that a by (simp add: SigninHandler_valid)
  from a h show ?thesis by blast
qed

theorem unrecoverable_signature_is_internal_error_witness:
  "signature_outcome sample_crypto ''7'' sig_bad_v = NoRecovery ''invalid signature recovery id'' \<and>
   Authenticate sample_crypto (rand_gives 8) one_user addr_a ''7'' sig_bad_v =
     (Returns (user_a ''7'', Some (ExternalError ''invalid signature recovery id'')), one_user) \<and>
   SigninHandler sample_crypto sample_jwt 50 (rand_gives 8) sample_provider one_user
     (Some (signin_a ''7'' sig_bad_v)) = (Returns (StatusInternalServerError, None), one_user)"
proof -
  have sv: "sig_bad_v \<noteq> []" by code_simp
  have n7: "Nonce (user_a ''7'') = ''7''" by (simp add: user_a_fields)
  note T = unrecoverable_signature_is_internal_error
    [of one_user addr_a "user_a ''7''" "''7''" sample_crypto sig_bad_v
      "''invalid signature recovery id''" "rand_gives 8" "signin_a ''7'' sig_bad_v"
      sample_jwt 50 sample_provider,
     OF one_user_a n7 out_bad_v]
  show ?thesis
    using T out_bad_v signin_a_valid [OF nonce_7_valid sv] signin_a_fields by blast
qed

section \<open>Registration\<close>

text \<open>
  Claim C7. For a valid address not yet in the registry and a working entropy source,
  the first \<^verbatim>\<open>Register\<close> answers 201 Created and stores the record under the
  lower-case address; the second answers 409 Conflict and leaves the registry, the first
  nonce included, as it is. \<^verbatim>\<open>CreateIfNotExists\<close> is atomic: when two goroutines
  call it at once, statement by statement under any schedule, and both have returned, the
  lock is free and results and registry are those of the two calls made one after the
  other, in one of the two orders. For the same absent address, exactly one call returns
  no error and its record is the one stored; the other returns \<^verbatim>\<open>ErrUserExists\<close>.
\<close>

theorem Register_twice:
  assumes valid: "hexRegex_MatchString (reg_Address p)"
    and absent: "s (ToLower (reg_Address p)) = None"
    and e1: "r1 max_nonce = Inr k1" and e2: "r2 max_nonce = Inr k2"
  shows "(\<exists>s1. RegisterHandler r1 s (Some p) = ((StatusCreated, None), s1) \<and>
           s1 = s(ToLower (reg_Address p) \<mapsto>
                    \<lparr>Address = ToLower (reg_Address p), Nonce = Text10 k1\<rparr>) \<and>
           RegisterHandler r2 s1 (Some p) = ((StatusConflict, None), s1) \<and>
           CreateIfNotExists s1 \<lparr>Address = ToLower (reg_Address p), Nonce = Text10 k2\<rparr> =
             (Some ErrUserExists, s1)) \<and>
         (run_creates sched (C_Call u1, C_Call u2, \<lparr>lock_held = False, users = m\<rparr>) =
            (C_Return x1, C_Return x2, fin) \<longrightarrow>
            \<not> lock_held fin \<and>
            ((\<exists>m1. CreateIfNotExists m u1 = (x1, m1) \<and>
                   CreateIfNotExists m1 u2 = (x2, users fin)) \<or>
             (\<exists>m2. CreateIfNotExists m u2 = (x2, m2) \<and>
                   CreateIfNotExists m2 u1 = (x1, users fin))) \<and>
            (Address u1 = Address u2 \<and> m (Address u1) = None \<longrightarrow>
               (x1 = None \<and> x2 = Some ErrUserExists \<and> users fin = m(Address u1 \<mapsto> u1)) \<or>
               (x1 = Some ErrUserExists \<and> x2 = None \<and> users fin = m(Address u1 \<mapsto> u2))))"
proof -
  have v: "Validate_Register p = None" using valid by (simp add: Validate_Register_def)
  have d: "ToLower (reg_Address p) \<notin> dom s" using absent by (simp add: domIff)
  have sequential: "\<exists>s1. RegisterHandler r1 s (Some p) = ((StatusCreated, None), s1) \<and>
           s1 = s(ToLower (reg_Address p) \<mapsto>
                    \<lparr>Address = ToLower (reg_Address p), Nonce = Text10 k1\<rparr>) \<and>
           RegisterHandler r2 s1 (Some p) = ((StatusConflict, None), s1) \<and>
           CreateIfNotExists s1 \<lparr>Address = ToLower (reg_Address p), Nonce = Text10 k2\<rparr> =
             (Some ErrUserExists, s1)"
    using d by (simp add: RegisterHandler_valid [where k = k1] RegisterHandler_valid [where k = k2]
        v e1 e2 CreateIfNotExists_cases)
  from sequential CreateIfNotExists_atomic [of sched u1 u2 m x1 x2 fin]
    CreateIfNotExists_no_lost_update [of sched u1 u2 m x1 x2 fin]
  show ?thesis by blast
qed

lemma sample_creates:
  "run_creates [First, Second, First, Second, First, First, Second, Second, Second]
     (C_Call (user_a ''7''), C_Call (user_a ''8''), \<lparr>lock_held = False, users = NewMemStorage\<rparr>) =
     (C_Return None, C_Return (Some ErrUserExists), \<lparr>lock_held = False, users = one_user\<rparr>)"
  by (simp add: user_a_fields NewMemStorage_def one_user_def)

theorem Register_twice_witness:
  "RegisterHandler (rand_gives 7) NewMemStorage (Some register_A) =
     ((StatusCreated, None), one_user) \<and>
   RegisterHandler (rand_gives 8) one_user (Some register_A) =
     ((StatusConflict, None), one_user) \<and>
   one_user addr_a = Some (user_a ''7'') \<and>
   run_creates [First, Second, First, Second, First, First, Second, Second, Second]
     (C_Call (user_a ''7''), C_Call (user_a ''8''), \<lparr>lock_held = False, users = NewMemStorage\<rparr>) =
     (C_Return None, C_Return (Some ErrUserExists), \<lparr>lock_held = False, users = one_user\<rparr>) \<and>
   CreateIfNotExists NewMemStorage (user_a ''7'') = (None, one_user) \<and>
   CreateIfNotExists one_user (user_a ''8'') = (Some ErrUserExists, one_user)"
proof -
  have a: "NewMemStorage (ToLower (reg_Address register_A)) = None"
    by (simp add: NewMemStorage_def)
  have e: "rand_gives 7 max_nonce = Inr 7" "rand_gives 8 max_nonce = Inr 8"
    by (simp_all add: rand_gives_def)
  have same: "Address (user_a ''7'') = Address (user_a ''8'')"
    "NewMemStorage (Address (user_a ''7'')) = None"
    by (simp_all add: user_a_fields NewMemStorage_def)
  note T = Register_twice [of register_A NewMemStorage "rand_gives 7" 7 "rand_gives 8" 8
      "[First, Second, First, Second, First, First, Second, Second, Second]"
      "user_a ''7''" "user_a ''8''" NewMemStorage None "Some ErrUserExists"
      "\<lparr>lock_held = False, users = one_user\<rparr>", OF register_A_valid a e]
  from T have seq: "RegisterHandler (rand_gives 8) one_user (Some register_A) =
      ((StatusConflict, None), one_user)"
    using register_A_first by auto
  from T sample_creates have
    "(\<exists>m1. CreateIfNotExists NewMemStorage (user_a ''7'') = (None, m1) \<and>
        CreateIfNotExists m1 (user_a ''8'') = (Some ErrUserExists, one_user)) \<or>
     (\<exists>m2. CreateIfNotExists NewMemStorage (user_a ''8'') = (Some ErrUserExists, m2) \<and>
        CreateIfNotExists m2 (user_a ''7'') = (None, one_user))"
    by simp
  moreover have "CreateIfNotExists NewMemStorage (user_a ''7'') = (None, one_user)"
    by (simp add: CreateIfNotExists_cases user_a_fields NewMemStorage_def one_user_def)
  moreover have "CreateIfNotExists NewMemStorage (user_a ''8'') \<noteq> (Some ErrUserExists, m2)" for m2
    by (simp add: CreateIfNotExists_cases user_a_fields NewMemStorage_def)
  ultimately have c: "CreateIfNotExists NewMemStorage (user_a ''7'') = (None, one_user) \<and>
      CreateIfNotExists one_user (user_a ''8'') = (Some ErrUserExists, one_user)"
    by auto
  from register_A_first seq one_user_a sample_creates c show ?thesis by simp
qed

section \<open>Validation comes first\<close>

text \<open>
  Claim C8. A sign-in whose address does not match the 40-hex-digit pattern, whose nonce
  is not digits only, or whose signature is empty is answered 400 Bad Request; so are a
  registration and a nonce lookup with a malformed address. The answer is the same for
  every registry, which is returned as it was: the registry is neither read nor written.
\<close>

theorem invalid_input_rejected_without_registry:
  "((Validate_Signin p \<noteq> None) =
      (\<not> hexRegex_MatchString (sig_Address p) \<or> \<not> nonceRegex_MatchString (sig_Nonce p) \<or>
       sig_Sig p = [])) \<and>
   (Validate_Signin p \<noteq> None \<longrightarrow>
      SigninHandler lib jl now r j s (Some p) = (Returns (StatusBadRequest, None), s)) \<and>
   (\<not> hexRegex_MatchString (reg_Address q) \<longrightarrow>
      RegisterHandler r s (Some q) = ((StatusBadRequest, None), s)) \<and>
   (\<not> hexRegex_MatchString a \<longrightarrow> UserNonceHandler s a = ((StatusBadRequest, None), s))"
  by (simp add: Validate_Signin_def SigninHandler_def RegisterHandler_def Validate_Register_def
      UserNonceHandler_def)


theorem invalid_input_rejected_without_registry_witness:
  "SigninHandler sample_crypto sample_jwt 50 (rand_gives 8) sample_provider one_user
     (Some \<lparr>sig_Address = ''0xzz'', sig_Nonce = ''7'', sig_Sig = sig_by_a\<rparr>) =
     (Returns (StatusBadRequest, None), one_user) \<and>
   SigninHandler sample_crypto sample_jwt 50 (rand_gives 8) sample_provider one_user
     (Some (signin_a ''7a'' sig_by_a)) = (Returns (StatusBadRequest, None), one_user) \<and>
   SigninHandler sample_crypto sample_jwt 50 (rand_gives 8) sample_provider one_user
     (Some (signin_a ''7'' [])) = (Returns (StatusBadRequest, None), one_user) \<and>
   RegisterHandler (rand_gives 8) one_user (Some \<lparr>reg_Address = ''0xzz''\<rparr>) =
     ((StatusBadRequest, None), one_user) \<and>
   UserNonceHandler one_user ''0xzz'' = ((StatusBadRequest, None), one_user)"
proof -
  have z: "\<not> hexRegex_MatchString ''0xzz''" by code_simp
  have n: "\<not> nonceRegex_MatchString ''7a''" by code_simp
  note T = invalid_input_rejected_without_registry
  have 1: "SigninHandler sample_crypto sample_jwt 50 (rand_gives 8) sample_provider one_user
     (Some \<lparr>sig_Address = ''0xzz'', sig_Nonce = ''7'', sig_Sig = sig_by_a\<rparr>) =
     (Returns (StatusBadRequest, None), one_user)"
    using T [of "\<lparr>sig_Address = ''0xzz'', sig_Nonce = ''7'', sig_Sig = sig_by_a\<rparr>"
        sample_crypto sample_jwt 50 "rand_gives 8" sample_provider one_user] z
    by simp
  have 2: "SigninHandler sample_crypto sample_jwt 50 (rand_gives 8) sample_provider one_user
     (Some (signin_a ''7a'' sig_by_a)) = (Returns (StatusBadRequest, None), one_user)"
    using T [of "signin_a ''7a'' sig_by_a"
        sample_crypto sample_jwt 50 "rand_gives 8" sample_provider one_user] n
    by (simp add: signin_a_def)
  have 3: "SigninHandler sample_crypto sample_jwt 50 (rand_gives 8) sample_provider one_user
     (Some (signin_a ''7'' [])) = (Returns (StatusBadRequest, None), one_user)"
    using T [of "signin_a ''7'' []"
        sample_crypto sample_jwt 50 "rand_gives 8" sample_provider one_user]
    by (simp add: signin_a_def)
  have 4: "RegisterHandler (rand_gives 8) one_user (Some \<lparr>reg_Address = ''0xzz''\<rparr>) =
     ((StatusBadRequest, None), one_user)"
    using T [of _ _ _ _ "rand_gives 8" _ one_user "\<lparr>reg_Address = ''0xzz''\<rparr>"] z by simp
  have 5: "UserNonceHandler one_user ''0xzz'' = ((StatusBadRequest, None), one_user)"
    using T [of _ _ _ _ _ _ one_user _ "''0xzz''"] z by simp
  from 1 2 3 4 5 show ?thesis by blast
qed

section \<open>Lower-case keys\<close>

text \<open>
  Claim C9. In every registry the handlers can produce, each key is its own lower-case
  form and is the address of the record under it. Registration, nonce lookup and sign-in
  use the address only in lower case, so two addresses that pass validation and agree up
  to case get the same answer and the same registry from each handler; the nonce lookup
  reads the record under the lower-case address.
\<close>

theorem addresses_are_stored_lower_case:
  assumes "reachable s"
  shows "(\<forall>k u. s k = Some u \<longrightarrow> ToLower k = k \<and> Address u = k) \<and>
         (hexRegex_MatchString a \<and> hexRegex_MatchString b \<and> ToLower a = ToLower b \<longrightarrow>
            RegisterHandler r s (Some \<lparr>reg_Address = a\<rparr>) =
              RegisterHandler r s (Some \<lparr>reg_Address = b\<rparr>) \<and>
            UserNonceHandler s a = UserNonceHandler s b \<and>
            SigninHandler lib jl now r j s (Some \<lparr>sig_Address = a, sig_Nonce = n, sig_Sig = sg\<rparr>) =
              SigninHandler lib jl now r j s
                (Some \<lparr>sig_Address = b, sig_Nonce = n, sig_Sig = sg\<rparr>)) \<and>
         (hexRegex_MatchString a \<longrightarrow>
            UserNonceHandler s a =
              (case s (ToLower a) of
                 None \<Rightarrow> ((StatusNotFound, None), s)
               | Some u \<Rightarrow> ((StatusOK, Some (Nonce u)), s)))"
proof -
  have inv: "registry_inv s" using assms by (rule reachable_inv)
  then have 1: "\<forall>k u. s k = Some u \<longrightarrow> ToLower k = k \<and> Address u = k"
    by (simp add: registry_inv_def)
  have 2: "RegisterHandler r s (Some \<lparr>reg_Address = a\<rparr>) =
              RegisterHandler r s (Some \<lparr>reg_Address = b\<rparr>) \<and>
            UserNonceHandler s a = UserNonceHandler s b \<and>
            SigninHandler lib jl now r j s (Some \<lparr>sig_Address = a, sig_Nonce = n, sig_Sig = sg\<rparr>) =
              SigninHandler lib jl now r j s
                (Some \<lparr>sig_Address = b, sig_Nonce = n, sig_Sig = sg\<rparr>)"
    if "hexRegex_MatchString a" "hexRegex_MatchString b" "ToLower a = ToLower b"
    using that
    by (simp add: RegisterHandler_def Validate_Register_def UserNonceHandler_def
        SigninHandler_def Validate_Signin_def)
  have 3: "UserNonceHandler s a =
              (case s (ToLower a) of
                 None \<Rightarrow> ((StatusNotFound, None), s)
               | Some u \<Rightarrow> ((StatusOK, Some (Nonce u)), s))"
    if "hexRegex_MatchString a"
    using that by (simp add: UserNonceHandler_def Get_def split: option.split)
  from 1 2 3 show ?thesis by blast
qed

theorem addresses_are_stored_lower_case_witness:
  "reachable one_user \<and> one_user addr_a = Some (user_a ''7'') \<and>
   ToLower addr_a = addr_a \<and> Address (user_a ''7'') = addr_a \<and>
   UserNonceHandler one_user addr_A = ((StatusOK, Some ''7''), one_user) \<and>
   UserNonceHandler one_user addr_a = ((StatusOK, Some ''7''), one_user)"
proof -
  note l = addr_A_lower
  note T = addresses_are_stored_lower_case [OF reachable_one_user]
  have 1: "ToLower addr_a = addr_a \<and> Address (user_a ''7'') = addr_a"
    using T [THEN conjunct1] one_user_a by blast
  have 2: "UserNonceHandler one_user addr_A =
      ((StatusOK, Some ''7''), one_user)"
    using T [of addr_A, THEN conjunct2, THEN conjunct2] addr_A_valid
    by (simp add: l one_user_a user_a_fields)
  have 3: "UserNonceHandler one_user addr_a = UserNonceHandler one_user addr_A"
    using T [of addr_a addr_A, THEN conjunct2, THEN conjunct1]
      addr_A_valid addr_a_valid l addr_a_lower by simp
  from 1 2 3 reachable_one_user one_user_a show ?thesis by simp
qed

section \<open>Token verification\<close>

text \<open>
  Claim C5. \<^verbatim>\<open>Verify\<close> fails closed. Its only error is \<^verbatim>\<open>ErrAuthError\<close>: for
  a malformed token, for a token whose signing method is not of the HMAC family
  (\<^verbatim>\<open>none\<close> included), for an expired token and for a token whose signature does not
  verify under the provider's secret. When it returns claims, the token has decoded, its
  method is an HMAC one, its signature verifies under the provider's secret, it has not
  expired, and the claims are the token's. A decoded HMAC token with valid time claims and
  a verifying signature is accepted.
\<close>

theorem Verify_fails_closed:
  "(Verify jl now j tok = Inl e \<longrightarrow> e = ErrAuthError) \<and>
   (ParseUnverified jl tok = Inl m \<longrightarrow> Verify jl now j tok = Inl ErrAuthError) \<and>
   (ParseUnverified jl tok = Inr t \<and> (\<forall>h. Method t \<noteq> SigningMethodHMAC h) \<longrightarrow>
      Verify jl now j tok = Inl ErrAuthError) \<and>
   (ParseUnverified jl tok = Inr t \<and> ExpiresAt (Claims t) = Some x \<and> x \<le> now \<longrightarrow>
      Verify jl now j tok = Inl ErrAuthError) \<and>
   (ParseUnverified jl tok = Inr t \<and>
    \<not> MethodVerify jl (Method t) (SigningInput t) (Signature t) (hmacSecret j) \<longrightarrow>
      Verify jl now j tok = Inl ErrAuthError) \<and>
   (Verify jl now j tok = Inr c \<longrightarrow>
      (\<exists>t' h. ParseUnverified jl tok = Inr t' \<and> c = Claims t' \<and>
         Method t' = SigningMethodHMAC h \<and>
         MethodVerify jl (Method t') (SigningInput t') (Signature t') (hmacSecret j) \<and>
         (case ExpiresAt c of None \<Rightarrow> True | Some x' \<Rightarrow> now < x'))) \<and>
   (ParseUnverified jl tok = Inr t \<and> Method t = SigningMethodHMAC g \<and>
    claims_Valid now (Claims t) \<and>
    MethodVerify jl (Method t) (SigningInput t) (Signature t) (hmacSecret j) \<longrightarrow>
      Verify jl now j tok = Inr (Claims t))"
proof -
  have 1: "Verify jl now j tok = Inl e \<Longrightarrow> e = ErrAuthError"
    by (auto simp: Verify_cases split: sum.splits if_splits)
  have 2: "ParseUnverified jl tok = Inl m \<Longrightarrow> Verify jl now j tok = Inl ErrAuthError"
    by (simp add: Verify_cases)
  have 3: "ParseUnverified jl tok = Inr t \<Longrightarrow> \<forall>h. Method t \<noteq> SigningMethodHMAC h \<Longrightarrow>
      Verify jl now j tok = Inl ErrAuthError"
    by (simp add: Verify_cases)
  have 4: "ParseUnverified jl tok = Inr t \<Longrightarrow> ExpiresAt (Claims t) = Some x \<Longrightarrow> x \<le> now \<Longrightarrow>
      Verify jl now j tok = Inl ErrAuthError"
    by (simp add: Verify_cases expired_invalid)
  have 5: "ParseUnverified jl tok = Inr t \<Longrightarrow>
      \<not> MethodVerify jl (Method t) (SigningInput t) (Signature t) (hmacSecret j) \<Longrightarrow>
      Verify jl now j tok = Inl ErrAuthError"
    by (simp add: Verify_cases)
  have 6: "\<exists>t' h. ParseUnverified jl tok = Inr t' \<and> c = Claims t' \<and>
         Method t' = SigningMethodHMAC h \<and>
         MethodVerify jl (Method t') (SigningInput t') (Signature t') (hmacSecret j) \<and>
         (case ExpiresAt c of None \<Rightarrow> True | Some x' \<Rightarrow> now < x')"
    if "Verify jl now j tok = Inr c"
    using that
    by (auto simp: Verify_cases claims_Valid_def split: sum.splits if_splits)
  have 7: "ParseUnverified jl tok = Inr t \<Longrightarrow> Method t = SigningMethodHMAC g \<Longrightarrow>
    claims_Valid now (Claims t) \<Longrightarrow>
    MethodVerify jl (Method t) (SigningInput t) (Signature t) (hmacSecret j) \<Longrightarrow>
      Verify jl now j tok = Inr (Claims t)"
    by (simp add: Verify_cases)
  from 1 2 3 4 5 6 7 show ?thesis by blast
qed

theorem Verify_fails_closed_witness:
  "Verify sample_jwt 50 sample_provider ''good'' = Inr sample_claims \<and>
   Verify sample_jwt 100 sample_provider ''good'' = Inl ErrAuthError \<and>
   Verify sample_jwt 50 sample_provider ''forged'' = Inl ErrAuthError \<and>
   Verify sample_jwt 50 sample_provider ''none'' = Inl ErrAuthError \<and>
   Verify sample_jwt 50 sample_provider ''a.b'' = Inl ErrAuthError"
proof -
  note T = Verify_fails_closed
  note malformed = T [THEN conjunct2, THEN conjunct1, rule_format]
  note other_alg = T [THEN conjunct2, THEN conjunct2, THEN conjunct1, rule_format]
  note expired = T [THEN conjunct2, THEN conjunct2, THEN conjunct2, THEN conjunct1, rule_format]
  note bad_mac = T [THEN conjunct2, THEN conjunct2, THEN conjunct2, THEN conjunct2,
      THEN conjunct1, rule_format]
  note accepted = T [THEN conjunct2, THEN conjunct2, THEN conjunct2, THEN conjunct2,
      THEN conjunct2, THEN conjunct2, rule_format]
  have 1: "Verify sample_jwt 50 sample_provider ''good'' = Inr sample_claims"
    using accepted [where jl = sample_jwt and tok = "''good''" and now = 50
        and j = sample_provider and g = "''HS256''"
        and t = "sample_token (SigningMethodHMAC ''HS256'') ''mac''"]
    by (simp add: sample_parse sample_token_fields sample_mac sample_claims_valid)
  have 2: "Verify sample_jwt 100 sample_provider ''good'' = Inl ErrAuthError"
    using expired [where jl = sample_jwt and tok = "''good''" and now = 100
        and j = sample_provider and x = 100
        and t = "sample_token (SigningMethodHMAC ''HS256'') ''mac''"]
    by (simp add: sample_parse sample_token_fields sample_claims_valid)
  have 3: "Verify sample_jwt 50 sample_provider ''forged'' = Inl ErrAuthError"
    using bad_mac [where jl = sample_jwt and tok = "''forged''" and now = 50
        and j = sample_provider
        and t = "sample_token (SigningMethodHMAC ''HS256'') ''xxx''"]
    by (simp add: sample_parse sample_token_fields sample_mac)
  have 4: "Verify sample_jwt 50 sample_provider ''none'' = Inl ErrAuthError"
    using other_alg [where jl = sample_jwt and tok = "''none''" and now = 50
        and j = sample_provider and t = "sample_token SigningMethodNone []"]
    by (simp add: sample_parse sample_token_fields)
  have 5: "Verify sample_jwt 50 sample_provider ''a.b'' = Inl ErrAuthError"
    using malformed [where jl = sample_jwt and tok = "''a.b''" and now = 50
        and j = sample_provider]
    by (simp add: sample_parse)
  from 1 2 3 4 5 show ?thesis by blast
qed

section \<open>Racing sign-ins\<close>

text \<open>
  Claim C3 says that of two sign-ins that present the same stored nonce at the same time,
  at most one succeeds. Run one after the other, the second fails with
  \<^verbatim>\<open>ErrAuthError\<close>. But \<^verbatim>\<open>Authenticate\<close> releases the lock between reading the
  nonce and writing the new one: when both requests read before either writes, both pass
  the nonce check, both rotate and both return success.
\<close>

theorem concurrent_signins_both_succeed:
  "run_two sample_crypto (rand_gives 8) (rand_gives 9) [First, Second, First, Second]
     (Called addr_a ''7'' sig_by_a, Called addr_a ''7'' sig_by_a, one_user) =
     (Finished (Returns (user_a ''8'', None)), Finished (Returns (user_a ''9'', None)),
      one_user(addr_a \<mapsto> user_a ''9'')) \<and>
   run_two sample_crypto (rand_gives 8) (rand_gives 9) [First, First, Second, Second]
     (Called addr_a ''7'' sig_by_a, Called addr_a ''7'' sig_by_a, one_user) =
     (Finished (Returns (user_a ''8'', None)),
      Finished (Returns (user_a ''8'', Some ErrAuthError)),
      one_user(addr_a \<mapsto> user_a ''8''))"
proof -
  have g: "Get one_user addr_a = (user_a ''7'', None)"
    by (simp add: Get_def one_user_a)
  have g': "Get (one_user(addr_a \<mapsto> user_a ''8'')) addr_a = (user_a ''8'', None)"
    by (simp add: Get_def)
  have u: "(user_a ''7'')\<lparr>Nonce := m\<rparr> = user_a m" for m
    by (simp add: user_a_def)
  have a: "Authenticate_after_Get sample_crypto (rand_gives k) st (user_a ''7'', None) ''7'' sig_by_a =
      (Returns (user_a (Text10 k), None), st(addr_a \<mapsto> user_a (Text10 k)))" for k st
    by (simp add: Authenticate_after_Get_cases out_a user_a_fields rand_gives_def u)
  have b: "Authenticate_after_Get sample_crypto r st (user_a ''8'', None) ''7'' sig_by_a =
      (Returns (user_a ''8'', Some ErrAuthError), st)" for r st
    by (simp add: Authenticate_after_Get_cases user_a_fields)
  show ?thesis
    by (simp add: g g' a b Text10_8 Text10_9)
qed

end
